theory Spec2Isabelle
  imports Complex_Main
begin

section \<open>The run engine of the reflex-tile game board\<close>

text \<open>
  The component \<^verbatim>\<open>GameBoard\<close> is embedded as a state record and one function per handler
  of the source. JavaScript numbers are modelled by \<^typ>\<open>real\<close> where the source computes
  with fractions (seconds, milliseconds, the coefficients of a profile) and by \<^typ>\<open>int\<close>
  where it only counts (score, streak, hits, misses, cell indices); rounding of binary
  floating point is not modelled. The two inputs the handlers read from their
  environment are explicit: every call of \<^verbatim>\<open>Math.random()\<close> reads the next element of a
  sequence \<open>rnd\<close>, the state counting the reads in \<open>drawn\<close>, and every handler receives
  the value \<open>now\<close> of \<^verbatim>\<open>performance.now()\<close>. Sound, flashes, score pops and the combo
  banner are presentation and are left out.
\<close>

subsection \<open>Difficulty profiles\<close>

record profile =
  startTime :: real
  missPenalty :: real
  hazardChance :: real
  timeRewardCap :: real
  paceBase :: real
  paceFloor :: real
  paceScoreFactor :: real
  paceStreakFactor :: real
  rewardBonus :: real
  rewardFloor :: real
  rewardSlope :: real
  rewardStreakFactor :: real
  minGain :: real
  wrongClickPenalty :: real

definition normal :: profile where
  "normal = \<lparr> startTime = 30, missPenalty = 4, hazardChance = 0, timeRewardCap = 50,
     paceBase = 1900, paceFloor = 900, paceScoreFactor = 45 / 10, paceStreakFactor = 9,
     rewardBonus = 8 / 10, rewardFloor = 55 / 100, rewardSlope = 940,
     rewardStreakFactor = 12 / 1000, minGain = 11 / 10, wrongClickPenalty = 14 / 10 \<rparr>"

definition hard :: profile where
  "hard = \<lparr> startTime = 25, missPenalty = 45 / 10, hazardChance = 8 / 100, timeRewardCap = 40,
     paceBase = 1500, paceFloor = 700, paceScoreFactor = 65 / 10, paceStreakFactor = 12,
     rewardBonus = 65 / 100, rewardFloor = 38 / 100, rewardSlope = 900,
     rewardStreakFactor = 18 / 1000, minGain = 85 / 100, wrongClickPenalty = 16 / 10 \<rparr>"

definition extreme :: profile where
  "extreme = \<lparr> startTime = 20, missPenalty = 5, hazardChance = 14 / 100, timeRewardCap = 34,
     paceBase = 1250, paceFloor = 550, paceScoreFactor = 85 / 10, paceStreakFactor = 15,
     rewardBonus = 55 / 100, rewardFloor = 32 / 100, rewardSlope = 860,
     rewardStreakFactor = 23 / 1000, minGain = 75 / 100, wrongClickPenalty = 19 / 10 \<rparr>"

definition DIFFICULTY :: "string \<Rightarrow> profile option" where
  "DIFFICULTY k =
     (if k = ''normal'' then Some normal
      else if k = ''hard'' then Some hard
      else if k = ''extreme'' then Some extreme
      else None)"

text \<open>\<^verbatim>\<open>DIFFICULTY[difficulty] ?? DIFFICULTY.normal\<close>\<close>

definition settings :: "string \<Rightarrow> profile" where
  "settings d = (case DIFFICULTY d of Some p \<Rightarrow> p | None \<Rightarrow> normal)"

subsection \<open>Helpers\<close>

definition clamp :: "real \<Rightarrow> real \<Rightarrow> real \<Rightarrow> real" where
  "clamp v lo hi = min (max v lo) hi"

text \<open>
  \<^verbatim>\<open>+(x).toFixed(2)\<close>: the nearest multiple of 0.01, the larger magnitude on a tie, the
  sign kept.
\<close>

definition toFixed2 :: "real \<Rightarrow> real" where
  "toFixed2 x =
     (if x < 0 then - (real_of_int \<lfloor>(- x) * 100 + 1 / 2\<rfloor> / 100)
      else real_of_int \<lfloor>x * 100 + 1 / 2\<rfloor> / 100)"

text \<open>
  The loop of \<^verbatim>\<open>pickCell\<close>: \<open>nxt\<close> and \<open>attempts\<close> are its two variables, \<open>pos\<close> is the
  number of \<^verbatim>\<open>Math.random()\<close> reads made so far.
\<close>

function pickLoop :: "(nat \<Rightarrow> real) \<Rightarrow> int list \<Rightarrow> int \<Rightarrow> int \<Rightarrow> nat \<Rightarrow> nat \<Rightarrow> int \<times> nat" where
  "pickLoop rnd disallow count nxt attempts pos =
     (if nxt \<in> set disallow \<and> attempts < 40
      then pickLoop rnd disallow count \<lfloor>rnd pos * real_of_int count\<rfloor> (attempts + 1) (pos + 1)
      else (nxt, pos))"
  by pat_completeness auto
termination
  by (relation "measure (\<lambda>(rnd, disallow, count, nxt, attempts, pos). 40 - attempts)") auto

declare pickLoop.simps [simp del]

definition pickCell :: "(nat \<Rightarrow> real) \<Rightarrow> nat \<Rightarrow> int \<Rightarrow> int list \<Rightarrow> int \<Rightarrow> int \<times> nat" where
  "pickCell rnd pos previous banned count = pickLoop rnd (previous # banned) count previous 0 pos"

definition difficultyWindow :: "profile \<Rightarrow> int \<Rightarrow> int \<Rightarrow> real" where
  "difficultyWindow p sc st =
     max (paceFloor p)
         (paceBase p - real_of_int sc * paceScoreFactor p - real_of_int st * paceStreakFactor p)"

subsection \<open>Component state\<close>

datatype status = Idle | Playing | Paused | Done

record gridSize =
  cols :: int
  rows :: int

definition getGrid :: "int \<Rightarrow> gridSize" where
  "getGrid innerWidth =
     (if innerWidth \<le> 540 then \<lparr> cols = 4, rows = 4 \<rparr> else \<lparr> cols = 5, rows = 5 \<rparr>)"

text \<open>The object handed to \<^verbatim>\<open>onFinish\<close>.\<close>

record summary =
  sumScore :: int
  sumPlayerName :: "string option"
  sumMode :: string
  sumHits :: int
  sumMisses :: int
  sumAccuracy :: "int option"
  sumFastestHit :: "int option"
  sumAvgReaction :: "int option"
  sumMaxStreak :: int

text \<open>
  The props (\<open>playerName\<close>, \<open>mode\<close>, \<open>difficulty\<close>), the \<^verbatim>\<open>useState\<close> cells, the
  \<^verbatim>\<open>useRef\<close> cells, and the two environment components: \<open>drawn\<close>, the number of random
  reads so far, and \<open>emitted\<close>, the calls of \<^verbatim>\<open>onFinish\<close> in order.

  The keydown listener is installed by an effect with the dependencies
  \<^verbatim>\<open>[status, playerName]\<close>, so between two changes of these it keeps the \<^verbatim>\<open>reset\<close> of
  the render that installed it, with the settings and the cell count of that render.
  \<open>keyDifficulty\<close> and \<open>keyGrid\<close> hold the difficulty and the grid of that render.
\<close>

record board =
  playerName :: "string option"
  mode :: string
  difficulty :: string
  grid :: gridSize
  status :: status
  timeLeft :: real
  score :: int
  streak :: int
  misses :: int
  hits :: int
  activeCell :: int
  hazardCell :: "int option"
  fastestHit :: "int option"
  totalReactionMs :: real
  spawnTimeRef :: real
  finishedRef :: bool
  scoreRef :: int
  timeLeftRef :: real
  hitsRef :: int
  missesRef :: int
  fastestHitRef :: "int option"
  totalReactionRef :: real
  maxStreakRef :: int
  keyDifficulty :: string
  keyGrid :: gridSize
  drawn :: nat
  emitted :: "summary list"

definition cellCount :: "board \<Rightarrow> int" where
  "cellCount s = cols (grid s) * rows (grid s)"

definition profileOf :: "board \<Rightarrow> profile" where
  "profileOf s = settings (difficulty s)"

text \<open>The settings and the cell count that the keydown listener holds.\<close>

definition keyProfile :: "board \<Rightarrow> profile" where
  "keyProfile s = settings (keyDifficulty s)"

definition keyCellCount :: "board \<Rightarrow> int" where
  "keyCellCount s = cols (keyGrid s) * rows (keyGrid s)"

subsection \<open>Ending a run\<close>

definition runSummary :: "board \<Rightarrow> summary" where
  "runSummary s =
     (let totalHits = hitsRef s;
          totalMisses = missesRef s;
          totalAttempts = totalHits + totalMisses
      in \<lparr> sumScore = scoreRef s,
           sumPlayerName = playerName s,
           sumMode = mode s,
           sumHits = totalHits,
           sumMisses = totalMisses,
           sumAccuracy =
             (if totalAttempts > 0
              then Some (round (real_of_int totalHits / real_of_int totalAttempts * 100))
              else None),
           sumFastestHit = fastestHitRef s,
           sumAvgReaction =
             (if totalHits > 0
              then Some (round (totalReactionRef s / real_of_int totalHits))
              else None),
           sumMaxStreak = maxStreakRef s \<rparr>)"

definition endRun :: "board \<Rightarrow> board" where
  "endRun s =
     (if finishedRef s then s
      else s\<lparr> finishedRef := True, status := Done, emitted := emitted s @ [runSummary s] \<rparr>)"

definition applyTimePenalty :: "real \<Rightarrow> board \<Rightarrow> bool \<times> board" where
  "applyTimePenalty amount s =
     (let newTime = max 0 (timeLeftRef s - amount);
          s1 = s\<lparr> timeLeftRef := newTime, timeLeft := newTime \<rparr>
      in if newTime \<le> 0 then (True, endRun s1) else (False, s1))"

subsection \<open>Spawning\<close>

text \<open>
  \<^verbatim>\<open>Math.random() < hazardChance ? pickCell(next, [next], cellCount) : null\<close>, with the
  position in the random sequence before and after.
\<close>

definition hazardDraw :: "(nat \<Rightarrow> real) \<Rightarrow> nat \<Rightarrow> real \<Rightarrow> int \<Rightarrow> int \<Rightarrow> int option \<times> nat" where
  "hazardDraw rnd pos chance nxt count =
     (if rnd pos < chance
      then (case pickCell rnd (pos + 1) nxt [nxt] count of (h, p) \<Rightarrow> (Some h, p))
      else (None, pos + 1))"

definition spawnNewTarget :: "(nat \<Rightarrow> real) \<Rightarrow> real \<Rightarrow> board \<Rightarrow> board" where
  "spawnNewTarget rnd now s =
     (case pickCell rnd (drawn s) (activeCell s) [] (cellCount s) of (nxt, p1) \<Rightarrow>
      case hazardDraw rnd p1 (hazardChance (profileOf s)) nxt (cellCount s) of (hz, p2) \<Rightarrow>
        s\<lparr> activeCell := nxt, spawnTimeRef := now, hazardCell := hz, drawn := p2 \<rparr>)"

subsection \<open>Start and restart\<close>

text \<open>
  The white space that \<^verbatim>\<open>trim\<close> removes, among the code units a \<^typ>\<open>char\<close> can hold:
  tab, line feed, vertical tab, form feed, carriage return, space and no-break space.
  The Unicode spaces above 255 are not representable in this string type.
\<close>

definition isSpace :: "char \<Rightarrow> bool" where
  "isSpace c = (of_char c \<in> {9, 10, 11, 12, 13, 32, 160 :: nat})"

definition trim :: "string \<Rightarrow> string" where
  "trim n = rev (dropWhile isSpace (rev (dropWhile isSpace n)))"

text \<open>\<^verbatim>\<open>!playerName || playerName.trim().length === 0\<close>; \<open>None\<close> is a prop that was not passed.\<close>

definition blankName :: "string option \<Rightarrow> bool" where
  "blankName n = (case n of None \<Rightarrow> True | Some v \<Rightarrow> v = [] \<or> length (trim v) = 0)"

text \<open>
  \<^verbatim>\<open>reset\<close> reads \<^verbatim>\<open>settings\<close> and \<^verbatim>\<open>cellCount\<close> from the render that created it:
  \<open>resetWith\<close> takes the two as parameters, and \<open>reset\<close> is the function of the current
  render, the one the buttons of the overlay call.
\<close>

definition resetWith :: "profile \<Rightarrow> int \<Rightarrow> (nat \<Rightarrow> real) \<Rightarrow> real \<Rightarrow> board \<Rightarrow> board" where
  "resetWith p count rnd now s =
     (if blankName (playerName s) then s
      else
        let startT = startTime p;
            chance = hazardChance p
        in case pickCell rnd (drawn s) (- 1) [] count of (nxt, p1) \<Rightarrow>
           case (if chance > 0 then hazardDraw rnd p1 chance nxt count else (None, p1))
           of (hz, p2) \<Rightarrow>
             s\<lparr> finishedRef := False, timeLeftRef := startT, scoreRef := 0, hitsRef := 0,
                missesRef := 0, fastestHitRef := None, totalReactionRef := 0, maxStreakRef := 0,
                status := Playing, timeLeft := startT, score := 0, streak := 0, misses := 0,
                hits := 0, fastestHit := None, totalReactionMs := 0,
                spawnTimeRef := now, activeCell := nxt, hazardCell := hz, drawn := p2 \<rparr>)"

definition reset :: "(nat \<Rightarrow> real) \<Rightarrow> real \<Rightarrow> board \<Rightarrow> board" where
  "reset rnd now s = resetWith (profileOf s) (cellCount s) rnd now s"

text \<open>The effect on \<^verbatim>\<open>[settings, cellCount]\<close>: back to idle, everything cleared.\<close>

definition settingsEffect :: "(nat \<Rightarrow> real) \<Rightarrow> board \<Rightarrow> board" where
  "settingsEffect rnd s =
     (let startT = startTime (profileOf s)
      in case pickCell rnd (drawn s) (- 1) [] (cellCount s) of (nxt, p1) \<Rightarrow>
           s\<lparr> finishedRef := False, timeLeftRef := startT, scoreRef := 0, hitsRef := 0,
              missesRef := 0, fastestHitRef := None, totalReactionRef := 0, maxStreakRef := 0,
              status := Idle, timeLeft := startT, score := 0, streak := 0, misses := 0,
              hits := 0, fastestHit := None, totalReactionMs := 0,
              activeCell := nxt, hazardCell := None, drawn := p1 \<rparr>)"

subsection \<open>The two clocks\<close>

text \<open>The body of the 100 ms interval.\<close>

definition countdownTick :: "board \<Rightarrow> board" where
  "countdownTick s =
     (let nxt = toFixed2 (timeLeft s - 1 / 10);
          s1 = s\<lparr> timeLeftRef := nxt \<rparr>
      in if nxt \<le> 0 then (endRun s1)\<lparr> timeLeft := 0 \<rparr> else s1\<lparr> timeLeft := nxt \<rparr>)"

text \<open>The reaction deadline ran out.\<close>

definition registerMiss :: "(nat \<Rightarrow> real) \<Rightarrow> real \<Rightarrow> board \<Rightarrow> board" where
  "registerMiss rnd now s =
     (if status s \<noteq> Playing then s
      else
        let s1 = s\<lparr> streak := 0, misses := misses s + 1, missesRef := missesRef s + 1 \<rparr>
        in case applyTimePenalty (missPenalty (profileOf s)) s1 of (ended, s2) \<Rightarrow>
             if ended then s2 else spawnNewTarget rnd now s2)"

subsection \<open>Taps\<close>

text \<open>
  The three branches of \<^verbatim>\<open>registerHit\<close>, in the order of the source. An updater passed to
  \<^verbatim>\<open>setScore\<close> runs at the render that follows the handler, so in the hazard branch
  \<^verbatim>\<open>endRun\<close> still reads the old \<open>scoreRef\<close>. Every profile defines
  \<open>wrongClickPenalty\<close>, so the fallback of \<^verbatim>\<open>?? 2.5\<close> is never taken.
\<close>

definition hazardTap :: "(nat \<Rightarrow> real) \<Rightarrow> real \<Rightarrow> board \<Rightarrow> board" where
  "hazardTap rnd now s =
     (let s1 = s\<lparr> hazardCell := None, streak := 0, missesRef := missesRef s + 1 \<rparr>;
          v = max (score s - 10) 0
      in case applyTimePenalty (missPenalty (profileOf s) + 1) s1 of (ended, s2) \<Rightarrow>
           let s3 = s2\<lparr> score := v, scoreRef := v \<rparr>
           in if ended then s3 else spawnNewTarget rnd now s3)"

definition wrongTap :: "board \<Rightarrow> board" where
  "wrongTap s =
     (let s1 = s\<lparr> streak := 0, missesRef := missesRef s + 1 \<rparr>
      in snd (applyTimePenalty (wrongClickPenalty (profileOf s)) s1))"

definition correctTap :: "(nat \<Rightarrow> real) \<Rightarrow> real \<Rightarrow> board \<Rightarrow> board" where
  "correctTap rnd now s =
     (let reaction = now - spawnTimeRef s;
          reactionRounded = round reaction;
          speedBonus = max 2 (round ((1200 - reaction) / 30));
          streakBonus = max 0 (streak s - 1) * 4;
          gained = 15 + speedBonus + streakBonus;
          v = max (score s + gained) 0;
          newStreak = streak s + 1;
          timeReward = max (rewardFloor (profileOf s))
             (125 / 100 - reaction / rewardSlope (profileOf s)
                - real_of_int (streak s) * rewardStreakFactor (profileOf s));
          gain = max (minGain (profileOf s)) (timeReward + rewardBonus (profileOf s));
          newTime = clamp (timeLeftRef s + gain) 0 (timeRewardCap (profileOf s));
          s1 = s\<lparr> fastestHit :=
                   (case fastestHit s of None \<Rightarrow> Some reactionRounded
                    | Some prev \<Rightarrow> Some (min prev reactionRounded)),
                 totalReactionMs := totalReactionMs s + reaction,
                 hits := hits s + 1,
                 hitsRef := hitsRef s + 1,
                 totalReactionRef := totalReactionRef s + reaction,
                 fastestHitRef :=
                   (case fastestHitRef s of None \<Rightarrow> Some reactionRounded
                    | Some cur \<Rightarrow> if reactionRounded < cur then Some reactionRounded else Some cur),
                 score := v,
                 scoreRef := v,
                 streak := newStreak,
                 maxStreakRef := (if newStreak > maxStreakRef s then newStreak else maxStreakRef s),
                 timeLeftRef := newTime,
                 timeLeft := newTime \<rparr>
      in spawnNewTarget rnd now s1)"

definition registerHit :: "(nat \<Rightarrow> real) \<Rightarrow> real \<Rightarrow> int \<Rightarrow> board \<Rightarrow> board" where
  "registerHit rnd now cellIndex s =
     (if status s \<noteq> Playing then s
      else if hazardCell s = Some cellIndex then hazardTap rnd now s
      else if cellIndex \<noteq> activeCell s then wrongTap s
      else correctTap rnd now s)"

definition resumeGame :: "board \<Rightarrow> board" where
  "resumeGame s = (if status s = Paused then s\<lparr> status := Playing \<rparr> else s)"

subsection \<open>Events\<close>

text \<open>
  What reaches the component: the interval and the deadline timer, which their effects
  arm only while the status is \<open>Playing\<close>; a pointer-down on a tile; the buttons of the
  overlay, each present only in the statuses in which the source renders it; the keys;
  and changes of the props and of the window width. Each event is handled on the state
  the previous one left. The click handlers are those of the current render; the space
  key calls the \<^verbatim>\<open>reset\<close> that the keydown listener holds. The summary carries the
  player name of the current props; a timer armed by an earlier render would report the
  name of that render.
\<close>

datatype event =
    Tick
  | Deadline real
  | Tap int real
  | ClickStart real
  | ClickRestart real
  | ClickResume
  | KeySpace real
  | KeyPause
  | SetDifficulty string
  | SetPlayerName "string option"
  | Resize int

fun handleEvent :: "(nat \<Rightarrow> real) \<Rightarrow> board \<Rightarrow> event \<Rightarrow> board" where
  "handleEvent rnd s Tick = (if status s = Playing then countdownTick s else s)"
| "handleEvent rnd s (Deadline now) = (if status s = Playing then registerMiss rnd now s else s)"
| "handleEvent rnd s (Tap cellIndex now) = registerHit rnd now cellIndex s"
| "handleEvent rnd s (ClickStart now) =
     (if status s = Idle \<or> status s = Done then reset rnd now s else s)"
| "handleEvent rnd s (ClickRestart now) = (if status s = Paused then reset rnd now s else s)"
| "handleEvent rnd s ClickResume = (if status s = Paused then resumeGame s else s)"
| "handleEvent rnd s (KeySpace now) =
     (if (status s = Idle \<or> status s = Done) \<and> \<not> blankName (playerName s)
      then resetWith (keyProfile s) (keyCellCount s) rnd now s else s)"
| "handleEvent rnd s KeyPause =
     (if status s = Playing then s\<lparr> status := Paused \<rparr>
      else if status s = Paused then s\<lparr> status := Playing \<rparr>
      else s)"
| "handleEvent rnd s (SetDifficulty d) =
     (let s1 = s\<lparr> difficulty := d \<rparr>
      in if settings d \<noteq> profileOf s then settingsEffect rnd s1 else s1)"
| "handleEvent rnd s (SetPlayerName n) = s\<lparr> playerName := n \<rparr>"
| "handleEvent rnd s (Resize innerWidth) =
     (let nxt = getGrid innerWidth;
          s1 = s\<lparr> grid := nxt \<rparr>
      in if cellCount s1 \<noteq> cellCount s then settingsEffect rnd s1 else s1)"

text \<open>
  After the render that follows an event, the keydown effect runs again exactly if the
  status or the player name has changed, and the listener then holds the current render.
\<close>

definition rebindKeys :: "board \<Rightarrow> board \<Rightarrow> board" where
  "rebindKeys s s' =
     (if status s' \<noteq> status s \<or> playerName s' \<noteq> playerName s
      then s'\<lparr> keyDifficulty := difficulty s', keyGrid := grid s' \<rparr> else s')"

definition step :: "(nat \<Rightarrow> real) \<Rightarrow> board \<Rightarrow> event \<Rightarrow> board" where
  "step rnd s e = rebindKeys s (handleEvent rnd s e)"

fun run :: "(nat \<Rightarrow> real) \<Rightarrow> board \<Rightarrow> event list \<Rightarrow> board" where
  "run rnd s [] = s"
| "run rnd s (e # es) = run rnd (step rnd s e) es"

text \<open>The events that run \<^verbatim>\<open>reset\<close> or the effect on \<^verbatim>\<open>[settings, cellCount]\<close>.\<close>

fun isRestart :: "event \<Rightarrow> bool" where
  "isRestart (ClickStart now) = True"
| "isRestart (ClickRestart now) = True"
| "isRestart (KeySpace now) = True"
| "isRestart (SetDifficulty d) = True"
| "isRestart (Resize innerWidth) = True"
| "isRestart e = False"

text \<open>
  Mounting: the initialisers of the \<^verbatim>\<open>useState\<close> and \<^verbatim>\<open>useRef\<close> cells, then the effects
  of the first render: the keydown listener is installed, and the effect on
  \<^verbatim>\<open>[settings, cellCount]\<close> runs.
\<close>

definition initial :: "(nat \<Rightarrow> real) \<Rightarrow> string option \<Rightarrow> string \<Rightarrow> string \<Rightarrow> int \<Rightarrow> real \<Rightarrow> board" where
  "initial rnd name m d innerWidth now =
     (let g = getGrid innerWidth
      in case pickCell rnd 0 (- 1) [] (cols g * rows g) of (nxt, p1) \<Rightarrow>
        \<lparr> playerName = name, mode = m, difficulty = d, grid = g, status = Idle,
          timeLeft = startTime (settings d), score = 0, streak = 0, misses = 0, hits = 0,
          activeCell = nxt, hazardCell = None, fastestHit = None, totalReactionMs = 0,
          spawnTimeRef = now, finishedRef = False, scoreRef = 0,
          timeLeftRef = startTime (settings d), hitsRef = 0, missesRef = 0,
          fastestHitRef = None, totalReactionRef = 0, maxStreakRef = 0,
          keyDifficulty = d, keyGrid = g, drawn = p1, emitted = [] \<rparr>)"

definition mount :: "(nat \<Rightarrow> real) \<Rightarrow> string option \<Rightarrow> string \<Rightarrow> string \<Rightarrow> int \<Rightarrow> real \<Rightarrow> board" where
  "mount rnd name m d innerWidth now = settingsEffect rnd (initial rnd name m d innerWidth now)"

subsection \<open>Invariant of the reachable states\<close>

text \<open>
  The latch is set exactly in status \<open>Done\<close>; before that the ref and the state cell of
  the remaining time agree; a run in progress has time left; the time left stays within
  \<open>0\<close> and the cap of the profile; score and streak are not negative.
\<close>

definition consistent :: "board \<Rightarrow> bool" where
  "consistent s =
     ((finishedRef s \<longleftrightarrow> status s = Done)
      \<and> (status s \<noteq> Done \<longrightarrow> timeLeftRef s = timeLeft s)
      \<and> (status s = Playing \<or> status s = Paused \<longrightarrow> 0 < timeLeft s)
      \<and> 0 \<le> timeLeft s
      \<and> timeLeft s \<le> timeRewardCap (profileOf s)
      \<and> timeLeftRef s \<le> timeRewardCap (profileOf s)
      \<and> 0 \<le> score s
      \<and> 0 \<le> streak s)"

text \<open>
  How the latch and the list of emitted summaries may differ between a state and a later
  one: a summary is added exactly when the latch goes from clear to set, and a set latch
  stays set with nothing added.
\<close>

definition latchStep :: "board \<Rightarrow> board \<Rightarrow> bool" where
  "latchStep s s' =
     (length (emitted s') = length (emitted s) + (if finishedRef s' \<and> \<not> finishedRef s then 1 else 0)
      \<and> (finishedRef s \<longrightarrow> finishedRef s' \<and> emitted s' = emitted s))"

text \<open>Under a profile whose hazard chance is \<open>0\<close> there is no hazard tile.\<close>

definition noHazard :: "board \<Rightarrow> bool" where
  "noHazard s = (hazardChance (profileOf s) = 0 \<longrightarrow> hazardCell s = None)"

section \<open>Facts about the profiles and the helpers\<close>

lemma settings_cases: "settings d = normal \<or> settings d = hard \<or> settings d = extreme"
  by (simp add: settings_def DIFFICULTY_def)

lemma profile_facts:
  "0 < startTime (settings d) \<and> startTime (settings d) \<le> timeRewardCap (settings d)
   \<and> 0 \<le> missPenalty (settings d) \<and> 0 \<le> wrongClickPenalty (settings d)
   \<and> 0 < minGain (settings d) \<and> 0 \<le> hazardChance (settings d)"
  using settings_cases [of d] by (auto simp: normal_def hard_def extreme_def)

lemma pace_factors_nonneg: "0 \<le> paceScoreFactor (settings d) \<and> 0 \<le> paceStreakFactor (settings d)"
  using settings_cases [of d] by (auto simp: normal_def hard_def extreme_def)

lemma draw_in_range:
  assumes "1 \<le> count" "0 \<le> r" "r < 1"
  shows "0 \<le> \<lfloor>r * real_of_int count\<rfloor> \<and> \<lfloor>r * real_of_int count\<rfloor> < count"
proof -
  have c: "0 < real_of_int count" using assms(1) by simp
  have "0 \<le> r * real_of_int count" using assms(2) c by simp
  moreover have "r * real_of_int count < real_of_int count" using assms(3) c by simp
  ultimately show ?thesis by (simp add: floor_less_iff)
qed

lemma pickLoop_result:
  assumes "1 \<le> count" "\<forall>i. 0 \<le> rnd i \<and> rnd i < 1" "attempts \<le> 40"
    "pickLoop rnd disallow count nxt attempts pos = (n, p)"
  shows "pos \<le> p \<and> p + attempts \<le> pos + 40
       \<and> (p = pos \<longrightarrow> n = nxt)
       \<and> (pos < p \<longrightarrow> n = \<lfloor>rnd (p - 1) * real_of_int count\<rfloor> \<and> 0 \<le> n \<and> n < count)
       \<and> (n \<in> set disallow \<longrightarrow> p + attempts = pos + 40)"
  using assms
proof (induction rnd disallow count nxt attempts pos rule: pickLoop.induct)
  case (1 rnd disallow count nxt attempts pos)
  show ?case
  proof (cases "nxt \<in> set disallow \<and> attempts < 40")
    case True
    let ?d = "\<lfloor>rnd pos * real_of_int count\<rfloor>"
    from True "1.prems"(4)
    have rec: "pickLoop rnd disallow count ?d (attempts + 1) (pos + 1) = (n, p)"
      by (simp add: pickLoop.simps [of rnd disallow count nxt attempts pos])
    have a: "attempts + 1 \<le> 40" using True by simp
    note ih = "1.IH" [OF True "1.prems"(1) "1.prems"(2) a rec]
    have rng: "0 \<le> ?d \<and> ?d < count"
      using draw_in_range [of count "rnd pos"] "1.prems"(1,2) by simp
    from ih rng show ?thesis by (auto simp: le_Suc_eq)
  next
    case False
    with "1.prems"(4) have "n = nxt" "p = pos"
      by (simp_all add: pickLoop.simps [of rnd disallow count nxt attempts pos])
    with False "1.prems"(3) show ?thesis by auto
  qed
qed

lemma toFixed2_upper: "toFixed2 x \<le> max 0 (x + 1 / 200)"
proof (cases "x < 0")
  case True
  then have "0 \<le> \<lfloor>(- x) * 100 + 1 / 2\<rfloor>" by simp
  then have "- (real_of_int \<lfloor>(- x) * 100 + 1 / 2\<rfloor> / 100) \<le> 0" by simp
  moreover have "toFixed2 x = - (real_of_int \<lfloor>(- x) * 100 + 1 / 2\<rfloor> / 100)"
    using True by (simp only: toFixed2_def if_True)
  ultimately have "toFixed2 x \<le> 0" by (simp only:)
  then show ?thesis by (rule order_trans) simp
next
  case False
  have "real_of_int \<lfloor>x * 100 + 1 / 2\<rfloor> \<le> x * 100 + 1 / 2" by (rule of_int_floor_le)
  then have "real_of_int \<lfloor>x * 100 + 1 / 2\<rfloor> / 100 \<le> x + 1 / 200" by simp
  with False show ?thesis by (simp add: toFixed2_def)
qed

lemma spawnNewTarget_frame [simp]:
  "status (spawnNewTarget rnd now s) = status s"
  "timeLeft (spawnNewTarget rnd now s) = timeLeft s"
  "timeLeftRef (spawnNewTarget rnd now s) = timeLeftRef s"
  "finishedRef (spawnNewTarget rnd now s) = finishedRef s"
  "score (spawnNewTarget rnd now s) = score s"
  "scoreRef (spawnNewTarget rnd now s) = scoreRef s"
  "streak (spawnNewTarget rnd now s) = streak s"
  "misses (spawnNewTarget rnd now s) = misses s"
  "missesRef (spawnNewTarget rnd now s) = missesRef s"
  "hits (spawnNewTarget rnd now s) = hits s"
  "hitsRef (spawnNewTarget rnd now s) = hitsRef s"
  "difficulty (spawnNewTarget rnd now s) = difficulty s"
  "emitted (spawnNewTarget rnd now s) = emitted s"
  "profileOf (spawnNewTarget rnd now s) = profileOf s"
  by (simp_all add: spawnNewTarget_def profileOf_def split: prod.splits)

lemma consistent_spawn: "consistent (spawnNewTarget rnd now s) = consistent s"
  by (simp add: consistent_def)

lemma consistent_penalty:
  assumes "consistent s" "status s = Playing" "0 \<le> amount"
  shows "consistent (snd (applyTimePenalty amount s))"
  using assms by (auto simp: consistent_def applyTimePenalty_def endRun_def profileOf_def Let_def)

lemma consistent_tick:
  assumes "consistent s" "status s = Playing"
  shows "consistent (countdownTick s)"
proof -
  have "toFixed2 (timeLeft s - 1 / 10) \<le> max 0 (timeLeft s - 1 / 10 + 1 / 200)"
    by (rule toFixed2_upper)
  with assms show ?thesis
    by (auto simp: consistent_def countdownTick_def endRun_def profileOf_def Let_def)
qed

lemma consistent_registerMiss:
  assumes "consistent s" shows "consistent (registerMiss rnd now s)"
proof (cases "status s = Playing")
  case True
  let ?s1 = "s\<lparr> streak := 0, misses := misses s + 1, missesRef := missesRef s + 1 \<rparr>"
  have c1: "consistent ?s1" using assms by (simp add: consistent_def profileOf_def)
  have "consistent (snd (applyTimePenalty (missPenalty (profileOf s)) ?s1))"
    using c1 True profile_facts [of "difficulty s"]
    by (intro consistent_penalty) (simp_all add: profileOf_def)
  with True show ?thesis
    by (cases "applyTimePenalty (missPenalty (profileOf s)) ?s1")
       (simp add: registerMiss_def consistent_spawn)
next
  case False
  with assms show ?thesis by (simp add: registerMiss_def)
qed


lemma consistent_hazardTap:
  assumes "consistent s" "status s = Playing" shows "consistent (hazardTap rnd now s)"
proof -
  let ?s1 = "s\<lparr> hazardCell := None, streak := 0, missesRef := missesRef s + 1 \<rparr>"
  let ?r = "applyTimePenalty (missPenalty (profileOf s) + 1) ?s1"
  have c1: "consistent ?s1" using assms by (simp add: consistent_def profileOf_def)
  have "consistent (snd ?r)"
    using c1 assms(2) profile_facts [of "difficulty s"]
    by (intro consistent_penalty) (simp_all add: profileOf_def)
  then have "consistent ((snd ?r)\<lparr> score := max (score s - 10) 0, scoreRef := max (score s - 10) 0 \<rparr>)"
    by (simp add: consistent_def profileOf_def)
  then show ?thesis
    by (cases ?r) (simp add: hazardTap_def consistent_spawn Let_def)
qed

lemma consistent_wrongTap:
  assumes "consistent s" "status s = Playing" shows "consistent (wrongTap s)"
proof -
  let ?s1 = "s\<lparr> streak := 0, missesRef := missesRef s + 1 \<rparr>"
  have c1: "consistent ?s1" using assms by (simp add: consistent_def profileOf_def)
  show ?thesis unfolding wrongTap_def Let_def
    using c1 assms(2) profile_facts [of "difficulty s"]
    by (intro consistent_penalty) (simp_all add: profileOf_def)
qed

lemma clamp_bounds:
  "0 \<le> hi \<Longrightarrow> 0 \<le> clamp v 0 hi \<and> clamp v 0 hi \<le> hi"
  "0 < hi \<Longrightarrow> 0 < v \<Longrightarrow> 0 < clamp v 0 hi"
  by (simp_all add: clamp_def)

lemma correctTap_fields:
  "timeLeft (correctTap rnd now s) =
     clamp (timeLeftRef s
            + max (minGain (profileOf s))
                (max (rewardFloor (profileOf s))
                   (125 / 100 - (now - spawnTimeRef s) / rewardSlope (profileOf s)
                      - real_of_int (streak s) * rewardStreakFactor (profileOf s))
                 + rewardBonus (profileOf s)))
       0 (timeRewardCap (profileOf s))"
  "timeLeftRef (correctTap rnd now s) = timeLeft (correctTap rnd now s)"
  "score (correctTap rnd now s) =
     max (score s + (15 + max 2 (round ((1200 - (now - spawnTimeRef s)) / 30))
                       + max 0 (streak s - 1) * 4)) 0"
  "streak (correctTap rnd now s) = streak s + 1"
  "status (correctTap rnd now s) = status s"
  "finishedRef (correctTap rnd now s) = finishedRef s"
  "profileOf (correctTap rnd now s) = profileOf s"
  "emitted (correctTap rnd now s) = emitted s"
  by (simp_all add: correctTap_def Let_def profileOf_def)

lemma consistent_correctTap:
  assumes "consistent s" "status s = Playing" shows "consistent (correctTap rnd now s)"
proof -
  define g where "g = max (minGain (profileOf s))
                (max (rewardFloor (profileOf s))
                   (125 / 100 - (now - spawnTimeRef s) / rewardSlope (profileOf s)
                      - real_of_int (streak s) * rewardStreakFactor (profileOf s))
                 + rewardBonus (profileOf s))"
  have cap: "0 < timeRewardCap (profileOf s)"
    using profile_facts [of "difficulty s"] by (simp add: profileOf_def)
  have "0 < minGain (profileOf s)"
    using profile_facts [of "difficulty s"] by (simp add: profileOf_def)
  then have g: "0 < g" unfolding g_def by (rule less_le_trans) simp
  have tl: "timeLeftRef s = timeLeft s" "0 < timeLeft s" "\<not> finishedRef s" "0 \<le> streak s"
    using assms by (simp_all add: consistent_def)
  have t: "timeLeft (correctTap rnd now s) = clamp (timeLeft s + g) 0 (timeRewardCap (profileOf s))"
    by (simp add: correctTap_fields(1) g_def tl(1))
  have "0 < timeLeft s + g" using tl(2) g by simp
  then have pos: "0 < timeLeft (correctTap rnd now s)"
    unfolding t using cap by (simp add: clamp_bounds(2))
  have le: "timeLeft (correctTap rnd now s) \<le> timeRewardCap (profileOf s)"
    unfolding t using cap clamp_bounds(1) [of "timeRewardCap (profileOf s)"] by simp
  show ?thesis
    unfolding consistent_def
    using pos le tl(3,4) assms(2) by (simp add: correctTap_fields)
qed

lemma consistent_registerHit:
  "consistent s \<Longrightarrow> consistent (registerHit rnd now cellIndex s)"
  by (simp add: registerHit_def consistent_hazardTap consistent_wrongTap consistent_correctTap)

lemma profile_cross:
  "0 < startTime (settings d) \<and> startTime (settings d) \<le> timeRewardCap (settings d')"
  using settings_cases [of d] settings_cases [of d']
  by (auto simp: normal_def hard_def extreme_def)

lemma resetWith_fields:
  assumes "\<not> blankName (playerName s)"
  shows "status (resetWith p c rnd now s) = Playing"
    "timeLeft (resetWith p c rnd now s) = startTime p"
    "timeLeftRef (resetWith p c rnd now s) = startTime p"
    "finishedRef (resetWith p c rnd now s) = False"
    "score (resetWith p c rnd now s) = 0"
    "streak (resetWith p c rnd now s) = 0"
    "profileOf (resetWith p c rnd now s) = profileOf s"
  using assms by (simp_all add: resetWith_def Let_def profileOf_def split: prod.splits)

lemma reset_fields:
  assumes "\<not> blankName (playerName s)"
  shows "status (reset rnd now s) = Playing"
    "timeLeft (reset rnd now s) = startTime (profileOf s)"
    "timeLeftRef (reset rnd now s) = startTime (profileOf s)"
    "finishedRef (reset rnd now s) = False"
    "score (reset rnd now s) = 0"
    "streak (reset rnd now s) = 0"
    "profileOf (reset rnd now s) = profileOf s"
  unfolding reset_def by (simp_all add: resetWith_fields [OF assms])

lemma consistent_resetWith:
  "consistent s \<Longrightarrow> consistent (resetWith (settings d) c rnd now s)"
proof (cases "blankName (playerName s)")
  case True
  assume "consistent s"
  with True show ?thesis by (simp add: resetWith_def)
next
  case False
  show ?thesis
    unfolding consistent_def resetWith_fields [OF False]
    using profile_cross [of d "difficulty s"] by (simp add: profileOf_def)
qed

lemma consistent_reset: "consistent s \<Longrightarrow> consistent (reset rnd now s)"
  unfolding reset_def profileOf_def by (rule consistent_resetWith)

lemma settingsEffect_fields:
  "status (settingsEffect rnd s) = Idle"
  "timeLeft (settingsEffect rnd s) = startTime (profileOf s)"
  "timeLeftRef (settingsEffect rnd s) = startTime (profileOf s)"
  "finishedRef (settingsEffect rnd s) = False"
  "score (settingsEffect rnd s) = 0"
  "streak (settingsEffect rnd s) = 0"
  "hazardCell (settingsEffect rnd s) = None"
  "profileOf (settingsEffect rnd s) = profileOf s"
  by (simp_all add: settingsEffect_def Let_def profileOf_def split: prod.splits)

lemma consistent_settingsEffect: "consistent (settingsEffect rnd s)"
  unfolding consistent_def settingsEffect_fields
  using profile_facts [of "difficulty s"] by (simp add: profileOf_def)

lemma consistent_handleEvent: "consistent s \<Longrightarrow> consistent (handleEvent rnd s e)"
proof (cases e)
  case Tick
  assume "consistent s"
  with Tick show ?thesis by (simp add: consistent_tick)
next
  case (Deadline now)
  assume "consistent s"
  with Deadline show ?thesis by (simp add: consistent_registerMiss)
next
  case (Tap i now)
  assume "consistent s"
  with Tap show ?thesis by (simp add: consistent_registerHit)
next
  case (ClickStart now)
  assume "consistent s"
  with ClickStart show ?thesis by (simp add: consistent_reset)
next
  case (ClickRestart now)
  assume "consistent s"
  with ClickRestart show ?thesis by (simp add: consistent_reset)
next
  case ClickResume
  assume "consistent s"
  then have "status s = Paused \<Longrightarrow> consistent (s\<lparr> status := Playing \<rparr>)"
    by (simp add: consistent_def profileOf_def)
  with \<open>consistent s\<close> ClickResume show ?thesis by (simp add: resumeGame_def)
next
  case (KeySpace now)
  assume "consistent s"
  with KeySpace show ?thesis by (simp add: consistent_resetWith keyProfile_def)
next
  case KeyPause
  assume c: "consistent s"
  then have "status s = Paused \<Longrightarrow> consistent (s\<lparr> status := Playing \<rparr>)"
    and "status s = Playing \<Longrightarrow> consistent (s\<lparr> status := Paused \<rparr>)"
    by (simp_all add: consistent_def profileOf_def)
  with c KeyPause show ?thesis by simp
next
  case (SetDifficulty d)
  assume c: "consistent s"
  show ?thesis
  proof (cases "settings d = profileOf s")
    case True
    with c have "consistent (s\<lparr> difficulty := d \<rparr>)" by (simp add: consistent_def profileOf_def)
    with True SetDifficulty show ?thesis by simp
  next
    case False
    with SetDifficulty show ?thesis by (simp add: consistent_settingsEffect)
  qed
next
  case (SetPlayerName n)
  assume "consistent s"
  then have "consistent (s\<lparr> playerName := n \<rparr>)" by (simp add: consistent_def profileOf_def)
  with SetPlayerName show ?thesis by simp
next
  case (Resize w)
  assume c: "consistent s"
  then have "consistent (s\<lparr> grid := getGrid w \<rparr>)" by (simp add: consistent_def profileOf_def)
  with Resize show ?thesis by (simp add: consistent_settingsEffect Let_def)
qed

lemma consistent_rebind: "consistent (rebindKeys s s') = consistent s'"
  by (simp add: rebindKeys_def consistent_def profileOf_def)

lemma consistent_step: "consistent s \<Longrightarrow> consistent (step rnd s e)"
  by (simp add: step_def consistent_rebind consistent_handleEvent)

lemma consistent_run: "consistent s \<Longrightarrow> consistent (run rnd s es)"
  by (induction es arbitrary: s) (simp_all add: consistent_step)

lemma consistent_mount: "consistent (mount rnd name m d innerWidth now)"
  by (simp add: mount_def consistent_settingsEffect)

section \<open>The one-shot latch\<close>

lemma latchStep_refl: "latchStep s s"
  by (simp add: latchStep_def)

lemma latchStep_trans: "latchStep s s1 \<Longrightarrow> latchStep s1 s2 \<Longrightarrow> latchStep s s2"
  by (cases "finishedRef s"; cases "finishedRef s1"; cases "finishedRef s2")
     (simp_all add: latchStep_def)

lemma latchStep_same:
  "emitted s' = emitted s \<Longrightarrow> finishedRef s' = finishedRef s \<Longrightarrow> latchStep s s'"
  by (simp add: latchStep_def)

lemma latchStep_endRun: "latchStep s (endRun s)"
  by (cases "finishedRef s") (simp_all add: latchStep_def endRun_def)

lemma latchStep_penalty: "latchStep s (snd (applyTimePenalty amount s))"
proof -
  let ?s1 = "s\<lparr> timeLeftRef := max 0 (timeLeftRef s - amount), timeLeft := max 0 (timeLeftRef s - amount) \<rparr>"
  have a: "latchStep s ?s1" by (simp add: latchStep_same)
  have b: "latchStep ?s1 (endRun ?s1)" by (rule latchStep_endRun)
  have ab: "latchStep s (endRun ?s1)" using a b by (rule latchStep_trans)
  have "snd (applyTimePenalty amount s) = ?s1 \<or> snd (applyTimePenalty amount s) = endRun ?s1"
    by (simp add: applyTimePenalty_def Let_def)
  with a ab show ?thesis by (elim disjE) (simp_all only:)
qed

lemma latchStep_tick: "latchStep s (countdownTick s)"
proof -
  let ?n = "toFixed2 (timeLeft s - 1 / 10)"
  let ?s1 = "s\<lparr> timeLeftRef := ?n \<rparr>"
  have a: "latchStep s ?s1" by (simp add: latchStep_same)
  have b: "latchStep ?s1 (endRun ?s1)" by (rule latchStep_endRun)
  have ab: "latchStep s (endRun ?s1)" using a b by (rule latchStep_trans)
  have c: "latchStep (endRun ?s1) ((endRun ?s1)\<lparr> timeLeft := 0 \<rparr>)" by (simp add: latchStep_same)
  have abc: "latchStep s ((endRun ?s1)\<lparr> timeLeft := 0 \<rparr>)" using ab c by (rule latchStep_trans)
  have d: "latchStep ?s1 (?s1\<lparr> timeLeft := ?n \<rparr>)" by (simp add: latchStep_same)
  have ad: "latchStep s (?s1\<lparr> timeLeft := ?n \<rparr>)" using a d by (rule latchStep_trans)
  have "countdownTick s = (endRun ?s1)\<lparr> timeLeft := 0 \<rparr> \<or> countdownTick s = ?s1\<lparr> timeLeft := ?n \<rparr>"
    by (simp add: countdownTick_def Let_def)
  with abc ad show ?thesis by (elim disjE) (simp_all only:)
qed

lemma latchStep_registerMiss: "latchStep s (registerMiss rnd now s)"
proof (cases "status s = Playing")
  case True
  let ?s1 = "s\<lparr> streak := 0, misses := misses s + 1, missesRef := missesRef s + 1 \<rparr>"
  let ?r = "applyTimePenalty (missPenalty (profileOf s)) ?s1"
  have a: "latchStep s ?s1" by (simp add: latchStep_same)
  have b: "latchStep ?s1 (snd ?r)" by (rule latchStep_penalty)
  have c: "latchStep (snd ?r) (spawnNewTarget rnd now (snd ?r))" by (simp add: latchStep_same)
  have ab: "latchStep s (snd ?r)" using a b by (rule latchStep_trans)
  have abc: "latchStep s (spawnNewTarget rnd now (snd ?r))" using ab c by (rule latchStep_trans)
  have "registerMiss rnd now s = snd ?r \<or> registerMiss rnd now s = spawnNewTarget rnd now (snd ?r)"
    using True by (cases ?r) (simp add: registerMiss_def)
  with ab abc show ?thesis by (elim disjE) (simp_all only:)
next
  case False
  then show ?thesis by (simp add: registerMiss_def latchStep_refl)
qed

lemma latchStep_hazardTap: "latchStep s (hazardTap rnd now s)"
proof -
  let ?s1 = "s\<lparr> hazardCell := None, streak := 0, missesRef := missesRef s + 1 \<rparr>"
  let ?r = "applyTimePenalty (missPenalty (profileOf s) + 1) ?s1"
  let ?s3 = "(snd ?r)\<lparr> score := max (score s - 10) 0, scoreRef := max (score s - 10) 0 \<rparr>"
  have a: "latchStep s ?s1" by (simp add: latchStep_same)
  have b: "latchStep ?s1 (snd ?r)" by (rule latchStep_penalty)
  have c: "latchStep (snd ?r) ?s3" by (simp add: latchStep_same)
  have d: "latchStep ?s3 (spawnNewTarget rnd now ?s3)" by (simp add: latchStep_same)
  have ab: "latchStep s (snd ?r)" using a b by (rule latchStep_trans)
  have abc: "latchStep s ?s3" using ab c by (rule latchStep_trans)
  have abcd: "latchStep s (spawnNewTarget rnd now ?s3)" using abc d by (rule latchStep_trans)
  have "hazardTap rnd now s = ?s3 \<or> hazardTap rnd now s = spawnNewTarget rnd now ?s3"
    by (cases ?r) (simp add: hazardTap_def Let_def)
  with abc abcd show ?thesis by (elim disjE) (simp_all only:)
qed

lemma latchStep_wrongTap: "latchStep s (wrongTap s)"
proof -
  let ?s1 = "s\<lparr> streak := 0, missesRef := missesRef s + 1 \<rparr>"
  have a: "latchStep s ?s1" by (simp add: latchStep_same)
  have b: "latchStep ?s1 (snd (applyTimePenalty (wrongClickPenalty (profileOf s)) ?s1))"
    by (rule latchStep_penalty)
  from a b show ?thesis unfolding wrongTap_def Let_def by (rule latchStep_trans)
qed

lemma latchStep_correctTap: "latchStep s (correctTap rnd now s)"
  by (simp add: latchStep_same correctTap_fields)

lemma latchStep_handleEvent: "\<not> isRestart e \<Longrightarrow> latchStep s (handleEvent rnd s e)"
proof (cases e)
  case Tick
  then show ?thesis by (simp add: latchStep_tick latchStep_refl)
next
  case (Deadline now)
  then show ?thesis by (simp add: latchStep_registerMiss latchStep_refl)
next
  case (Tap i now)
  then show ?thesis
    by (simp add: registerHit_def latchStep_hazardTap latchStep_wrongTap latchStep_correctTap
        latchStep_refl)
next
  case ClickResume
  then show ?thesis by (simp add: resumeGame_def latchStep_same latchStep_refl)
next
  case KeyPause
  then show ?thesis by (simp add: latchStep_same latchStep_refl)
next
  case (SetPlayerName n)
  then show ?thesis by (simp add: latchStep_same)
qed simp_all

lemma latchStep_rebind: "latchStep s (rebindKeys s s') = latchStep s s'"
  by (simp add: rebindKeys_def latchStep_def)

lemma latchStep_step: "\<not> isRestart e \<Longrightarrow> latchStep s (step rnd s e)"
  by (simp add: step_def latchStep_rebind latchStep_handleEvent)

lemma latchStep_run: "\<forall>e \<in> set es. \<not> isRestart e \<Longrightarrow> latchStep s (run rnd s es)"
proof (induction es arbitrary: s)
  case Nil
  show ?case by (simp add: latchStep_refl)
next
  case (Cons e es)
  have "latchStep s (step rnd s e)" using Cons.prems by (simp add: latchStep_step)
  moreover have "latchStep (step rnd s e) (run rnd (step rnd s e) es)"
    using Cons.prems by (intro Cons.IH) simp
  ultimately have "latchStep s (run rnd (step rnd s e) es)" by (rule latchStep_trans)
  then show ?case by simp
qed


lemma status_penalty:
  "status (snd (applyTimePenalty amount s)) = Done \<or> status (snd (applyTimePenalty amount s)) = status s"
  by (simp add: applyTimePenalty_def Let_def endRun_def)

lemma not_idle_handleEvent:
  assumes "\<not> isRestart e" "status s \<noteq> Idle" shows "status (handleEvent rnd s e) \<noteq> Idle"
proof (cases e)
  case Tick
  with assms show ?thesis by (simp add: countdownTick_def Let_def endRun_def)
next
  case (Deadline now)
  let ?s1 = "s\<lparr> streak := 0, misses := misses s + 1, missesRef := missesRef s + 1 \<rparr>"
  let ?r = "applyTimePenalty (missPenalty (profileOf s)) ?s1"
  have "status (snd ?r) \<noteq> Idle" using status_penalty [of "missPenalty (profileOf s)" ?s1] assms(2) by auto
  with Deadline assms show ?thesis by (cases ?r) (simp add: registerMiss_def)
next
  case (Tap i now)
  let ?s1 = "s\<lparr> hazardCell := None, streak := 0, missesRef := missesRef s + 1 \<rparr>"
  let ?r = "applyTimePenalty (missPenalty (profileOf s) + 1) ?s1"
  let ?s2 = "s\<lparr> streak := 0, missesRef := missesRef s + 1 \<rparr>"
  have h: "status (snd ?r) \<noteq> Idle"
    using status_penalty [of "missPenalty (profileOf s) + 1" ?s1] assms(2) by auto
  have hz: "status (hazardTap rnd now s) \<noteq> Idle"
    using h by (cases ?r) (simp add: hazardTap_def Let_def)
  have w: "status (wrongTap s) \<noteq> Idle"
    using status_penalty [of "wrongClickPenalty (profileOf s)" ?s2] assms(2)
    by (auto simp: wrongTap_def Let_def)
  from Tap assms hz w show ?thesis by (simp add: registerHit_def correctTap_fields)
next
  case ClickResume
  with assms show ?thesis by (simp add: resumeGame_def)
next
  case KeyPause
  with assms show ?thesis by simp
next
  case (SetPlayerName n)
  with assms show ?thesis by simp
qed (use assms in simp_all)

lemma status_rebind: "status (rebindKeys s s') = status s'"
  by (simp add: rebindKeys_def)

lemma not_idle_step:
  assumes "\<not> isRestart e" "status s \<noteq> Idle" shows "status (step rnd s e) \<noteq> Idle"
  using not_idle_handleEvent [OF assms] by (simp add: step_def status_rebind)

lemma not_idle_run:
  "\<forall>e \<in> set es. \<not> isRestart e \<Longrightarrow> status s \<noteq> Idle \<Longrightarrow> status (run rnd s es) \<noteq> Idle"
  by (induction es arbitrary: s) (simp_all add: not_idle_step)

section \<open>Hazard tiles need a hazard chance\<close>

lemma penalty_frame [simp]:
  "hazardCell (snd (applyTimePenalty amount s)) = hazardCell s"
  "activeCell (snd (applyTimePenalty amount s)) = activeCell s"
  "difficulty (snd (applyTimePenalty amount s)) = difficulty s"
  "profileOf (snd (applyTimePenalty amount s)) = profileOf s"
  "grid (snd (applyTimePenalty amount s)) = grid s"
  "cellCount (snd (applyTimePenalty amount s)) = cellCount s"
  "score (snd (applyTimePenalty amount s)) = score s"
  "scoreRef (snd (applyTimePenalty amount s)) = scoreRef s"
  "streak (snd (applyTimePenalty amount s)) = streak s"
  "hits (snd (applyTimePenalty amount s)) = hits s"
  "hitsRef (snd (applyTimePenalty amount s)) = hitsRef s"
  "misses (snd (applyTimePenalty amount s)) = misses s"
  "missesRef (snd (applyTimePenalty amount s)) = missesRef s"
  "spawnTimeRef (snd (applyTimePenalty amount s)) = spawnTimeRef s"
  "drawn (snd (applyTimePenalty amount s)) = drawn s"
  "timeLeft (snd (applyTimePenalty amount s)) = max 0 (timeLeftRef s - amount)"
  "timeLeftRef (snd (applyTimePenalty amount s)) = max 0 (timeLeftRef s - amount)"
  "fst (applyTimePenalty amount s) = (max 0 (timeLeftRef s - amount) \<le> 0)"
  by (simp_all add: applyTimePenalty_def Let_def endRun_def profileOf_def cellCount_def)

lemma hazardDraw_zero: "0 \<le> rnd pos \<Longrightarrow> hazardDraw rnd pos 0 nxt count = (None, pos + 1)"
  by (simp add: hazardDraw_def)

lemma spawn_noHazard:
  assumes "\<forall>i. 0 \<le> rnd i" shows "noHazard (spawnNewTarget rnd now s)"
proof (cases "hazardChance (profileOf s) = 0")
  case True
  obtain nxt p1 where pc: "pickCell rnd (drawn s) (activeCell s) [] (cellCount s) = (nxt, p1)"
    by (cases "pickCell rnd (drawn s) (activeCell s) [] (cellCount s)")
  have "hazardDraw rnd p1 0 nxt (cellCount s) = (None, p1 + 1)"
    using assms by (simp add: hazardDraw_zero)
  with True pc have "hazardCell (spawnNewTarget rnd now s) = None"
    by (simp add: spawnNewTarget_def)
  then show ?thesis by (simp add: noHazard_def)
next
  case False
  then show ?thesis by (simp add: noHazard_def)
qed

lemma reset_noHazard: "noHazard s \<Longrightarrow> noHazard (reset rnd now s)"
  by (auto simp: noHazard_def reset_def resetWith_def Let_def profileOf_def split: prod.splits)

lemma noHazard_handleEvent:
  assumes "\<forall>i. 0 \<le> rnd i" "noHazard s" "\<forall>now. e \<noteq> KeySpace now"
  shows "noHazard (handleEvent rnd s e)"
proof (cases e)
  case Tick
  with assms(2) show ?thesis
    by (simp add: noHazard_def countdownTick_def Let_def endRun_def profileOf_def)
next
  case (Deadline now)
  let ?s1 = "s\<lparr> streak := 0, misses := misses s + 1, missesRef := missesRef s + 1 \<rparr>"
  let ?r = "applyTimePenalty (missPenalty (profileOf s)) ?s1"
  have "noHazard (snd ?r)" using assms(2) by (simp add: noHazard_def profileOf_def)
  moreover have "noHazard (spawnNewTarget rnd now (snd ?r))" using assms(1) by (rule spawn_noHazard)
  ultimately show ?thesis using Deadline assms(2) by (cases ?r) (simp add: registerMiss_def)
next
  case (Tap i now)
  let ?s1 = "s\<lparr> hazardCell := None, streak := 0, missesRef := missesRef s + 1 \<rparr>"
  let ?r = "applyTimePenalty (missPenalty (profileOf s) + 1) ?s1"
  let ?s3 = "(snd ?r)\<lparr> score := max (score s - 10) 0, scoreRef := max (score s - 10) 0 \<rparr>"
  let ?s2 = "s\<lparr> streak := 0, missesRef := missesRef s + 1 \<rparr>"
  have "noHazard ?s3" by (simp add: noHazard_def)
  moreover have "noHazard (spawnNewTarget rnd now ?s3)" using assms(1) by (rule spawn_noHazard)
  ultimately have hz: "noHazard (hazardTap rnd now s)"
    by (cases ?r) (simp add: hazardTap_def Let_def)
  have w: "noHazard (wrongTap s)"
    using assms(2) by (simp add: wrongTap_def Let_def noHazard_def profileOf_def)
  have c: "noHazard (correctTap rnd now s)"
    unfolding correctTap_def Let_def using assms(1) by (rule spawn_noHazard)
  from Tap assms(2) hz w c show ?thesis by (simp add: registerHit_def)
next
  case (ClickStart now)
  with assms(2) show ?thesis by (simp add: reset_noHazard)
next
  case (ClickRestart now)
  with assms(2) show ?thesis by (simp add: reset_noHazard)
next
  case ClickResume
  with assms(2) show ?thesis by (simp add: resumeGame_def noHazard_def profileOf_def)
next
  case (KeySpace now)
  with assms(3) show ?thesis by simp
next
  case KeyPause
  with assms(2) show ?thesis by (simp add: noHazard_def profileOf_def)
next
  case (SetDifficulty d)
  have "noHazard (settingsEffect rnd (s\<lparr> difficulty := d \<rparr>))"
    by (simp add: noHazard_def settingsEffect_fields)
  moreover have "settings d = profileOf s \<Longrightarrow> noHazard (s\<lparr> difficulty := d \<rparr>)"
    using assms(2) by (simp add: noHazard_def profileOf_def)
  ultimately show ?thesis using SetDifficulty by (simp add: Let_def)
next
  case (SetPlayerName n)
  with assms(2) show ?thesis by (simp add: noHazard_def profileOf_def)
next
  case (Resize w)
  have "noHazard (settingsEffect rnd (s\<lparr> grid := getGrid w \<rparr>))"
    by (simp add: noHazard_def settingsEffect_fields)
  moreover have "noHazard (s\<lparr> grid := getGrid w \<rparr>)"
    using assms(2) by (simp add: noHazard_def profileOf_def)
  ultimately show ?thesis using Resize by (simp add: Let_def)
qed

lemma noHazard_rebind: "noHazard (rebindKeys s s') = noHazard s'"
  by (simp add: rebindKeys_def noHazard_def profileOf_def)

lemma noHazard_step:
  assumes "\<forall>i. 0 \<le> rnd i" "noHazard s" "\<forall>now. e \<noteq> KeySpace now"
  shows "noHazard (step rnd s e)"
  using noHazard_handleEvent [OF assms] by (simp add: step_def noHazard_rebind)

lemma noHazard_run:
  "\<forall>i. 0 \<le> rnd i \<Longrightarrow> noHazard s \<Longrightarrow> \<forall>e \<in> set es. \<forall>now. e \<noteq> KeySpace now
   \<Longrightarrow> noHazard (run rnd s es)"
  by (induction es arbitrary: s) (simp_all add: noHazard_step)

lemma noHazard_mount: "noHazard (mount rnd name m d innerWidth now)"
  by (simp add: mount_def noHazard_def settingsEffect_fields)

text \<open>
  Without the space key there is no hazard tile outside hard and extreme: every other way
  to start or to spawn draws the hazard with the chance of the profile in force.
\<close>

lemma hazard_free_without_space:
  assumes "\<forall>i. 0 \<le> rnd i" "\<forall>e \<in> set es. \<forall>now. e \<noteq> KeySpace now"
  shows "hazardChance (profileOf (run rnd (mount rnd name m d innerWidth now) es)) = 0
     \<longrightarrow> hazardCell (run rnd (mount rnd name m d innerWidth now) es) = None"
  using noHazard_run [OF assms(1) noHazard_mount assms(2)] by (simp add: noHazard_def)

lemma hazardChance_zero:
  "(hazardChance (settings d) = 0) = (d \<noteq> ''hard'' \<and> d \<noteq> ''extreme'')"
  by (simp add: settings_def DIFFICULTY_def normal_def hard_def extreme_def)

section \<open>Effects of the handlers on single fields\<close>

lemma penalty_status:
  "status (snd (applyTimePenalty amount s)) =
     (if max 0 (timeLeftRef s - amount) \<le> 0 \<and> \<not> finishedRef s then Done else status s)"
  "length (emitted (snd (applyTimePenalty amount s))) =
     length (emitted s) + (if max 0 (timeLeftRef s - amount) \<le> 0 \<and> \<not> finishedRef s then 1 else 0)"
  by (simp_all add: applyTimePenalty_def Let_def endRun_def)

lemma spawnNewTarget_result:
  "activeCell (spawnNewTarget rnd now s) = fst (pickCell rnd (drawn s) (activeCell s) [] (cellCount s))"
  "spawnTimeRef (spawnNewTarget rnd now s) = now"
  "hazardCell (spawnNewTarget rnd now s) =
     fst (hazardDraw rnd (snd (pickCell rnd (drawn s) (activeCell s) [] (cellCount s)))
            (hazardChance (profileOf s))
            (fst (pickCell rnd (drawn s) (activeCell s) [] (cellCount s))) (cellCount s))"
  "fastestHit (spawnNewTarget rnd now s) = fastestHit s"
  "fastestHitRef (spawnNewTarget rnd now s) = fastestHitRef s"
  "totalReactionMs (spawnNewTarget rnd now s) = totalReactionMs s"
  "totalReactionRef (spawnNewTarget rnd now s) = totalReactionRef s"
  "maxStreakRef (spawnNewTarget rnd now s) = maxStreakRef s"
  by (simp_all add: spawnNewTarget_def split: prod.splits)

lemma reachable_playing:
  assumes "s = run rnd (mount rnd name m d innerWidth t0) es" "status s = Playing"
  shows "timeLeftRef s = timeLeft s" "\<not> finishedRef s" "0 \<le> score s" "0 \<le> streak s" "0 < timeLeft s"
proof -
  have "consistent s" unfolding assms(1) by (intro consistent_run consistent_mount)
  with assms(2) show "timeLeftRef s = timeLeft s" "\<not> finishedRef s" "0 \<le> score s"
    "0 \<le> streak s" "0 < timeLeft s"
    by (simp_all add: consistent_def)
qed

lemma hazardTap_continue:
  assumes "0 < timeLeftRef s - (missPenalty (profileOf s) + 1)"
  shows "hazardTap rnd now s =
     spawnNewTarget rnd now
       (s\<lparr> hazardCell := None, streak := 0, missesRef := missesRef s + 1,
           timeLeftRef := timeLeftRef s - (missPenalty (profileOf s) + 1),
           timeLeft := timeLeftRef s - (missPenalty (profileOf s) + 1),
           score := max (score s - 10) 0, scoreRef := max (score s - 10) 0 \<rparr>)"
  using assms by (simp add: hazardTap_def applyTimePenalty_def Let_def max_def profileOf_def)

lemma correctTap_stats:
  "totalReactionRef (correctTap rnd now s) = totalReactionRef s + (now - spawnTimeRef s)"
  "totalReactionMs (correctTap rnd now s) = totalReactionMs s + (now - spawnTimeRef s)"
  "fastestHitRef (correctTap rnd now s) =
     Some (case fastestHitRef s of None \<Rightarrow> round (now - spawnTimeRef s)
           | Some cur \<Rightarrow> min cur (round (now - spawnTimeRef s)))"
  "fastestHit (correctTap rnd now s) =
     Some (case fastestHit s of None \<Rightarrow> round (now - spawnTimeRef s)
           | Some prev \<Rightarrow> min prev (round (now - spawnTimeRef s)))"
  "hits (correctTap rnd now s) = hits s + 1"
  "hitsRef (correctTap rnd now s) = hitsRef s + 1"
  by (simp_all add: correctTap_def Let_def spawnNewTarget_result min_def split: option.splits)



text \<open>
  The miss count exists twice in the source: the ref \<open>missesRef\<close>, which \<open>endRun\<close> reads
  for the summary, and the state cell \<open>misses\<close>, which only the accuracy shown on the
  board reads. A deadline miss adds to both; a tap on a plain tile or on the hazard adds
  to the ref alone.
\<close>

lemma displayed_misses:
  "misses (wrongTap s) = misses s"
  "misses (hazardTap rnd now s) = misses s"
  "status s = Playing \<Longrightarrow> misses (registerMiss rnd now s) = misses s + 1"
  "status s = Playing \<Longrightarrow> missesRef (registerMiss rnd now s) = missesRef s + 1"
proof -
  show "misses (wrongTap s) = misses s" by (simp add: wrongTap_def Let_def)
  show "misses (hazardTap rnd now s) = misses s"
    by (cases "applyTimePenalty (missPenalty (profileOf s) + 1)
                 (s\<lparr> hazardCell := None, streak := 0, missesRef := missesRef s + 1 \<rparr>)")
       (auto simp: hazardTap_def Let_def applyTimePenalty_def endRun_def split: if_splits)
  let ?r = "applyTimePenalty (missPenalty (profileOf s))
      (s\<lparr> streak := 0, misses := misses s + 1, missesRef := missesRef s + 1 \<rparr>)"
  have e: "status s = Playing \<Longrightarrow>
      registerMiss rnd now s = (if fst ?r then snd ?r else spawnNewTarget rnd now (snd ?r))"
    by (cases ?r) (simp add: registerMiss_def)
  show "status s = Playing \<Longrightarrow> misses (registerMiss rnd now s) = misses s + 1"
    by (simp add: e)
  show "status s = Playing \<Longrightarrow> missesRef (registerMiss rnd now s) = missesRef s + 1"
    by (simp add: e)
qed

text \<open>
  What a tap on a plain tile does apart from the state cell \<open>misses\<close>, in every state
  reached from mounting in which a run is in progress.
\<close>

lemma wrong_tap_frame:
  assumes "s = run rnd (mount rnd name m d innerWidth t0) es"
    and "status s = Playing"
    and "cellIndex \<noteq> activeCell s" and "hazardCell s \<noteq> Some cellIndex"
    and "s' = registerHit rnd now cellIndex s"
  shows "streak s' = 0
       \<and> missesRef s' = missesRef s + 1
       \<and> timeLeft s' = max 0 (timeLeft s - wrongClickPenalty (profileOf s))
       \<and> status s' = (if timeLeft s' \<le> 0 then Done else Playing)
       \<and> length (emitted s') = length (emitted s) + (if timeLeft s' \<le> 0 then 1 else 0)
       \<and> activeCell s' = activeCell s \<and> hazardCell s' = hazardCell s
       \<and> score s' = score s \<and> hits s' = hits s \<and> hitsRef s' = hitsRef s
       \<and> spawnTimeRef s' = spawnTimeRef s \<and> drawn s' = drawn s"
proof -
  note r = reachable_playing [OF assms(1) assms(2)]
  have w: "s' = wrongTap s" using assms(2-5) by (simp add: registerHit_def)
  show ?thesis
    unfolding w wrongTap_def Let_def
    using r(1,2) assms(2) by (simp add: penalty_status profileOf_def)
qed


section \<open>A concrete run\<close>

text \<open>
  The board of a player \<open>bob\<close> on a wide window under the normal profile, every random
  read giving \<open>0.7\<close>, after the Start button was pressed at time \<open>1000\<close>.
\<close>

lemma started_normal:
  "run (\<lambda>i. 7 / 10) (mount (\<lambda>i. 7 / 10) (Some ''bob'') ''solo'' ''normal'' 1024 0) [ClickStart 1000] =
     \<lparr> playerName = Some ''bob'', mode = ''solo'', difficulty = ''normal'',
       grid = \<lparr> cols = 5, rows = 5 \<rparr>, status = Playing, timeLeft = 30, score = 0,
       streak = 0, misses = 0, hits = 0, activeCell = 17, hazardCell = None,
       fastestHit = None, totalReactionMs = 0, spawnTimeRef = 1000,
       finishedRef = False, scoreRef = 0, timeLeftRef = 30, hitsRef = 0,
       missesRef = 0, fastestHitRef = None, totalReactionRef = 0,
       maxStreakRef = 0, keyDifficulty = ''normal'',
       keyGrid = \<lparr> cols = 5, rows = 5 \<rparr>, drawn = 3, emitted = [] \<rparr>"
  by (simp add: mount_def initial_def settingsEffect_def step_def rebindKeys_def reset_def resetWith_def
      pickCell_def pickLoop.simps
      getGrid_def cellCount_def profileOf_def settings_def DIFFICULTY_def normal_def
      blankName_def trim_def isSpace_def Let_def)

text \<open>
  The same player under the hard profile, with random reads chosen so that the start
  places the target on cell \<open>12\<close> and a hazard on cell \<open>17\<close>.
\<close>

lemma started_hard:
  "run (\<lambda>i. if i = 3 \<or> i = 6 then 1 / 100 else if i = 2 \<or> i = 7 then 1 / 2 else 7 / 10)
      (mount (\<lambda>i. if i = 3 \<or> i = 6 then 1 / 100 else if i = 2 \<or> i = 7 then 1 / 2 else 7 / 10)
         (Some ''bob'') ''solo'' ''hard'' 1024 0) [ClickStart 1000] =
     \<lparr> playerName = Some ''bob'', mode = ''solo'', difficulty = ''hard'',
       grid = \<lparr> cols = 5, rows = 5 \<rparr>, status = Playing, timeLeft = 25, score = 0,
       streak = 0, misses = 0, hits = 0, activeCell = 12, hazardCell = Some 17,
       fastestHit = None, totalReactionMs = 0, spawnTimeRef = 1000,
       finishedRef = False, scoreRef = 0, timeLeftRef = 25, hitsRef = 0,
       missesRef = 0, fastestHitRef = None, totalReactionRef = 0,
       maxStreakRef = 0, keyDifficulty = ''hard'',
       keyGrid = \<lparr> cols = 5, rows = 5 \<rparr>, drawn = 5, emitted = [] \<rparr>"
  by (simp add: mount_def initial_def settingsEffect_def step_def rebindKeys_def reset_def resetWith_def
      hazardDraw_def pickCell_def
      pickLoop.simps getGrid_def cellCount_def profileOf_def settings_def DIFFICULTY_def hard_def
      blankName_def trim_def isSpace_def Let_def)

text \<open>
  Under the hard profile with every random read giving \<open>0\<close>: all forty draws for the
  hazard land on the target, so the start leaves target and hazard on the same cell \<open>0\<close>.
\<close>

lemma started_overlap:
  "run (\<lambda>i. 0) (mount (\<lambda>i. 0) (Some ''bob'') ''solo'' ''hard'' 1024 0) [ClickStart 1000] =
     \<lparr> playerName = Some ''bob'', mode = ''solo'', difficulty = ''hard'',
       grid = \<lparr> cols = 5, rows = 5 \<rparr>, status = Playing, timeLeft = 25, score = 0,
       streak = 0, misses = 0, hits = 0, activeCell = 0, hazardCell = Some 0,
       fastestHit = None, totalReactionMs = 0, spawnTimeRef = 1000,
       finishedRef = False, scoreRef = 0, timeLeftRef = 25, hitsRef = 0,
       missesRef = 0, fastestHitRef = None, totalReactionRef = 0,
       maxStreakRef = 0, keyDifficulty = ''hard'',
       keyGrid = \<lparr> cols = 5, rows = 5 \<rparr>, drawn = 44, emitted = [] \<rparr>"
  by (simp add: mount_def initial_def settingsEffect_def step_def rebindKeys_def reset_def resetWith_def
      hazardDraw_def pickCell_def
      pickLoop.simps getGrid_def cellCount_def profileOf_def settings_def DIFFICULTY_def hard_def
      blankName_def trim_def isSpace_def Let_def)

section \<open>The claims\<close>

subsection \<open>C1: the time left stays within its bounds\<close>

text \<open>
  C1. In every state the component reaches from mounting, whatever the profile, the
  random reads and the events (ticks, taps of any kind, deadline misses, starts, pauses,
  changes of difficulty or window), \<open>timeLeft\<close> is at least \<open>0\<close> and at most the
  \<open>timeRewardCap\<close> of the active profile. Moreover every time penalty leaves a value
  that is at least \<open>0\<close>, and every correct tap leaves a value between \<open>0\<close> and the cap,
  from any state whatever.
\<close>

theorem timeLeft_within_bounds:
  "0 \<le> timeLeft (run rnd (mount rnd name m d innerWidth now) es)
   \<and> timeLeft (run rnd (mount rnd name m d innerWidth now) es)
       \<le> timeRewardCap (profileOf (run rnd (mount rnd name m d innerWidth now) es))
   \<and> 0 \<le> timeLeft (snd (applyTimePenalty amount s))
   \<and> 0 \<le> timeLeft (correctTap rnd now' s)
   \<and> timeLeft (correctTap rnd now' s) \<le> timeRewardCap (profileOf s)"
proof -
  have "consistent (run rnd (mount rnd name m d innerWidth now) es)"
    by (intro consistent_run consistent_mount)
  then have a: "0 \<le> timeLeft (run rnd (mount rnd name m d innerWidth now) es)
   \<and> timeLeft (run rnd (mount rnd name m d innerWidth now) es)
       \<le> timeRewardCap (profileOf (run rnd (mount rnd name m d innerWidth now) es))"
    by (simp add: consistent_def)
  have b: "0 \<le> timeLeft (snd (applyTimePenalty amount s))"
    by (simp add: applyTimePenalty_def Let_def endRun_def)
  have "0 \<le> timeRewardCap (profileOf s)"
    using profile_facts [of "difficulty s"] by (simp add: profileOf_def)
  then have c: "0 \<le> timeLeft (correctTap rnd now' s)
   \<and> timeLeft (correctTap rnd now' s) \<le> timeRewardCap (profileOf s)"
    unfolding correctTap_fields(1) by (rule clamp_bounds(1))
  from a b c show ?thesis by simp
qed

theorem timeLeft_within_bounds_witness:
  "timeLeft (run (\<lambda>i. 7 / 10) (mount (\<lambda>i. 7 / 10) (Some ''bob'') ''solo'' ''normal'' 1024 0)
       [ClickStart 1000, Tap 16 1300, Tick]) = 285 / 10
   \<and> timeRewardCap (profileOf (run (\<lambda>i. 7 / 10)
         (mount (\<lambda>i. 7 / 10) (Some ''bob'') ''solo'' ''normal'' 1024 0)
         [ClickStart 1000, Tap 16 1300, Tick])) = 50"
proof -
  have split: "run (\<lambda>i. 7 / 10) (mount (\<lambda>i. 7 / 10) (Some ''bob'') ''solo'' ''normal'' 1024 0)
         [ClickStart 1000, Tap 16 1300, Tick]
       = run (\<lambda>i. 7 / 10)
           (run (\<lambda>i. 7 / 10) (mount (\<lambda>i. 7 / 10) (Some ''bob'') ''solo'' ''normal'' 1024 0)
              [ClickStart 1000])
           [Tap 16 1300, Tick]"
    by simp
  show ?thesis
    unfolding split started_normal
    using timeLeft_within_bounds [of "\<lambda>i. 7 / 10" "Some ''bob''" "''solo''" "''normal''" 1024 0
        "[ClickStart 1000, Tap 16 1300, Tick]", unfolded split started_normal]
    by (simp add: step_def rebindKeys_def registerHit_def wrongTap_def applyTimePenalty_def
        countdownTick_def toFixed2_def profileOf_def settings_def DIFFICULTY_def normal_def Let_def)
qed

subsection \<open>C2: one summary per run\<close>

text \<open>
  C2. Over any events that neither start or restart a run nor change the settings, from
  any state: the number of calls of \<open>onFinish\<close> grows by one exactly if the latch
  \<open>finishedRef\<close> goes from clear to set, and not at all otherwise; once the latch is set
  it stays set, nothing more is emitted, and \<open>endRun\<close> changes nothing. A run in progress
  whose \<open>timeLeft\<close> has reached \<open>0\<close> has its latch set, so its summary was emitted, once.
  An accepted start clears the latch.
\<close>

theorem summary_emitted_once:
  assumes "\<forall>e \<in> set es. \<not> isRestart e"
  shows "length (emitted (run rnd s es)) =
           length (emitted s) + (if finishedRef (run rnd s es) \<and> \<not> finishedRef s then 1 else 0)
       \<and> (finishedRef s \<longrightarrow> finishedRef (run rnd s es) \<and> emitted (run rnd s es) = emitted s)
       \<and> (finishedRef s \<longrightarrow> endRun s = s)
       \<and> (consistent s \<and> status s \<noteq> Idle \<and> timeLeft (run rnd s es) \<le> 0
            \<longrightarrow> finishedRef (run rnd s es))
       \<and> (\<not> blankName (playerName s) \<longrightarrow> \<not> finishedRef (reset rnd now s))"
proof -
  have l: "latchStep s (run rnd s es)" using assms by (rule latchStep_run)
  then have a: "length (emitted (run rnd s es)) =
           length (emitted s) + (if finishedRef (run rnd s es) \<and> \<not> finishedRef s then 1 else 0)"
    and b: "finishedRef s \<longrightarrow> finishedRef (run rnd s es)"
    and b': "finishedRef s \<longrightarrow> emitted (run rnd s es) = emitted s"
    by (simp_all add: latchStep_def)
  have c: "finishedRef s \<longrightarrow> endRun s = s" by (simp add: endRun_def)
  have d: "consistent s \<and> status s \<noteq> Idle \<and> timeLeft (run rnd s es) \<le> 0
            \<longrightarrow> finishedRef (run rnd s es)"
  proof (intro impI, elim conjE)
    assume cs: "consistent s" and ni: "status s \<noteq> Idle" and tl: "timeLeft (run rnd s es) \<le> 0"
    have "consistent (run rnd s es)" using cs by (rule consistent_run)
    moreover have "status (run rnd s es) \<noteq> Idle" using assms ni by (rule not_idle_run)
    ultimately show "finishedRef (run rnd s es)"
      using tl by (cases "status (run rnd s es)") (auto simp: consistent_def)
  qed
  have e: "\<not> blankName (playerName s) \<longrightarrow> \<not> finishedRef (reset rnd now s)"
    by (simp add: reset_fields)
  from a b b' c d e show ?thesis by blast
qed


theorem summary_emitted_once_witness:
  "length (emitted (run (\<lambda>i. 7 / 10)
       ((run (\<lambda>i. 7 / 10) (mount (\<lambda>i. 7 / 10) (Some ''bob'') ''solo'' ''normal'' 1024 0)
           [ClickStart 1000])\<lparr> timeLeft := 1 / 10, timeLeftRef := 1 / 10 \<rparr>)
       [Tick, Tick, Deadline 1200, Tap 17 1300])) = 1
   \<and> status (run (\<lambda>i. 7 / 10)
       ((run (\<lambda>i. 7 / 10) (mount (\<lambda>i. 7 / 10) (Some ''bob'') ''solo'' ''normal'' 1024 0)
           [ClickStart 1000])\<lparr> timeLeft := 1 / 10, timeLeftRef := 1 / 10 \<rparr>)
       [Tick, Tick, Deadline 1200, Tap 17 1300]) = Done"
  unfolding started_normal
  using summary_emitted_once [of "[Tick, Tick, Deadline 1200, Tap 17 1300]" "\<lambda>i. 7 / 10"
      "(run (\<lambda>i. 7 / 10) (mount (\<lambda>i. 7 / 10) (Some ''bob'') ''solo'' ''normal'' 1024 0)
           [ClickStart 1000])\<lparr> timeLeft := 1 / 10, timeLeftRef := 1 / 10 \<rparr>" 0,
      unfolded started_normal]
  by (simp add: step_def rebindKeys_def countdownTick_def toFixed2_def endRun_def registerMiss_def
      registerHit_def Let_def)

subsection \<open>C3: a tap on the target\<close>

text \<open>
  C3, as the code has it. In a state reached from mounting in which a run is in progress,
  a tap on the target that is not also the hazard, with reaction \<open>r = now - spawnTimeRef\<close>
  and streak \<open>s\<close>: adds \<open>15 + max 2 (round ((1200 - r) / 30)) + max 0 (s - 1) * 4\<close> to the
  score, and sets \<open>timeLeft\<close> to
  \<open>clamp (timeLeft + max minGain (max rewardFloor (1.25 - r / rewardSlope - s * rewardStreakFactor) + rewardBonus)) 0 timeRewardCap\<close>.
  The witness is the scenario of the normal profile: a first tap after \<open>300\<close> ms gains
  \<open>45\<close> points and takes \<open>timeLeft\<close> from \<open>30\<close> to \<open>29827 / 940\<close>, which is
  \<open>31.7308...\<close>.
\<close>

theorem correct_tap_effect:
  assumes "s = run rnd (mount rnd name m d innerWidth t0) es"
    and "status s = Playing"
    and "cellIndex = activeCell s" and "hazardCell s \<noteq> Some cellIndex"
    and "s' = registerHit rnd now cellIndex s"
    and "r = now - spawnTimeRef s"
  shows "score s' = score s + (15 + max 2 (round ((1200 - r) / 30)) + max 0 (streak s - 1) * 4)
       \<and> timeLeft s' =
           clamp (timeLeft s
                  + max (minGain (profileOf s))
                      (max (rewardFloor (profileOf s))
                         (125 / 100 - r / rewardSlope (profileOf s)
                            - real_of_int (streak s) * rewardStreakFactor (profileOf s))
                       + rewardBonus (profileOf s)))
             0 (timeRewardCap (profileOf s))
       \<and> streak s' = streak s + 1
       \<and> hits s' = hits s + 1"
proof -
  note p = reachable_playing [OF assms(1) assms(2)]
  have c: "s' = correctTap rnd now s" using assms(2-5) by (simp add: registerHit_def)
  have "0 \<le> max 2 (round ((1200 - r) / 30))" by simp
  moreover have "0 \<le> max 0 (streak s - 1) * 4" by simp
  ultimately have "0 \<le> score s + (15 + max 2 (round ((1200 - r) / 30)) + max 0 (streak s - 1) * 4)"
    using p(3) by linarith
  then have sc: "score s' = score s + (15 + max 2 (round ((1200 - r) / 30)) + max 0 (streak s - 1) * 4)"
    unfolding c correctTap_fields(3) assms(6) by (rule max_absorb1)
  show ?thesis
    using sc unfolding c by (simp add: correctTap_fields correctTap_stats p(1) assms(6))
qed

theorem correct_tap_effect_witness:
  "score (registerHit (\<lambda>i. 7 / 10) 1300 17
      (run (\<lambda>i. 7 / 10) (mount (\<lambda>i. 7 / 10) (Some ''bob'') ''solo'' ''normal'' 1024 0)
         [ClickStart 1000])) = 45
   \<and> timeLeft (registerHit (\<lambda>i. 7 / 10) 1300 17
      (run (\<lambda>i. 7 / 10) (mount (\<lambda>i. 7 / 10) (Some ''bob'') ''solo'' ''normal'' 1024 0)
         [ClickStart 1000])) = 29827 / 940
   \<and> streak (registerHit (\<lambda>i. 7 / 10) 1300 17
      (run (\<lambda>i. 7 / 10) (mount (\<lambda>i. 7 / 10) (Some ''bob'') ''solo'' ''normal'' 1024 0)
         [ClickStart 1000])) = 1"
  unfolding started_normal
  using correct_tap_effect [where rnd = "\<lambda>i. 7 / 10" and name = "Some ''bob''" and m = "''solo''"
      and d = "''normal''" and innerWidth = 1024 and ?t0.0 = 0 and es = "[ClickStart 1000]"
      and cellIndex = 17 and now = 1300, OF refl _ _ _ refl refl,
      unfolded started_normal]
  by (simp add: profileOf_def settings_def DIFFICULTY_def normal_def clamp_def)

text \<open>
  The claim as written fails in two places. The time left after the scenario is not
  \<open>31.73\<close>. And a tap on the target is handled as a hazard tap when the hazard lies on
  the same cell, which the forty bounded draws allow: then the score does not grow and
  the penalty of the hazard is taken off the time.
\<close>

theorem correct_tap_counterexample:
  "timeLeft (registerHit (\<lambda>i. 7 / 10) 1300 17
      (run (\<lambda>i. 7 / 10) (mount (\<lambda>i. 7 / 10) (Some ''bob'') ''solo'' ''normal'' 1024 0)
         [ClickStart 1000])) \<noteq> 3173 / 100
   \<and> status (run (\<lambda>i. 0) (mount (\<lambda>i. 0) (Some ''bob'') ''solo'' ''hard'' 1024 0)
         [ClickStart 1000]) = Playing
   \<and> activeCell (run (\<lambda>i. 0) (mount (\<lambda>i. 0) (Some ''bob'') ''solo'' ''hard'' 1024 0)
         [ClickStart 1000]) = 0
   \<and> score (registerHit (\<lambda>i. 0) 1300 0
      (run (\<lambda>i. 0) (mount (\<lambda>i. 0) (Some ''bob'') ''solo'' ''hard'' 1024 0)
         [ClickStart 1000])) = 0
   \<and> timeLeft (registerHit (\<lambda>i. 0) 1300 0
      (run (\<lambda>i. 0) (mount (\<lambda>i. 0) (Some ''bob'') ''solo'' ''hard'' 1024 0)
         [ClickStart 1000])) = 195 / 10"
proof -
  let ?N = "run (\<lambda>i. 7 / 10) (mount (\<lambda>i. 7 / 10) (Some ''bob'') ''solo'' ''normal'' 1024 0)
         [ClickStart 1000]"
  let ?H = "run (\<lambda>i. 0) (mount (\<lambda>i. 0) (Some ''bob'') ''solo'' ''hard'' 1024 0)
         [ClickStart 1000]"
  have n: "registerHit (\<lambda>i. 7 / 10) 1300 17 ?N = correctTap (\<lambda>i. 7 / 10) 1300 ?N"
    unfolding started_normal by (simp add: registerHit_def)
  have "timeLeft (correctTap (\<lambda>i. 7 / 10) 1300 ?N) = 29827 / 940"
    unfolding correctTap_fields(1) started_normal
    by (simp add: profileOf_def settings_def DIFFICULTY_def normal_def clamp_def)
  then have a: "timeLeft (registerHit (\<lambda>i. 7 / 10) 1300 17 ?N) \<noteq> 3173 / 100"
    unfolding n by simp
  have b: "status ?H = Playing" "activeCell ?H = 0"
    unfolding started_overlap by simp_all
  have h: "registerHit (\<lambda>i. 0) 1300 0 ?H = hazardTap (\<lambda>i. 0) 1300 ?H"
    unfolding started_overlap by (simp add: registerHit_def)
  have p: "0 < timeLeftRef ?H - (missPenalty (profileOf ?H) + 1)"
    unfolding started_overlap by (simp add: profileOf_def settings_def DIFFICULTY_def hard_def)
  have c: "score (hazardTap (\<lambda>i. 0) 1300 ?H) = 0" "timeLeft (hazardTap (\<lambda>i. 0) 1300 ?H) = 195 / 10"
    unfolding hazardTap_continue [OF p] spawnNewTarget_frame
    unfolding started_overlap
    by (simp_all add: profileOf_def settings_def DIFFICULTY_def hard_def)
  show ?thesis unfolding h using a b c by blast
qed

subsection \<open>C4: a tap on a plain tile\<close>

text \<open>
  C4 says that a tap on a tile that is neither the target nor the hazard adds exactly one
  to \<open>misses\<close>. The source adds one to the ref \<open>missesRef\<close> and leaves the state cell
  \<open>misses\<close> as it was, although the refs are meant to follow the state and a deadline
  miss adds to both. On the started board of \<open>bob\<close>, with the target on cell \<open>17\<close> and no
  hazard, a tap on cell \<open>16\<close> leaves \<open>misses\<close> at \<open>0\<close> and takes \<open>missesRef\<close> to \<open>1\<close>; a
  deadline miss on the same board takes both to \<open>1\<close>.
\<close>

theorem wrong_tap_skips_misses:
  "status (run (\<lambda>i. 7 / 10) (mount (\<lambda>i. 7 / 10) (Some ''bob'') ''solo'' ''normal'' 1024 0)
      [ClickStart 1000]) = Playing
   \<and> activeCell (run (\<lambda>i. 7 / 10) (mount (\<lambda>i. 7 / 10) (Some ''bob'') ''solo'' ''normal'' 1024 0)
      [ClickStart 1000]) = 17
   \<and> hazardCell (run (\<lambda>i. 7 / 10) (mount (\<lambda>i. 7 / 10) (Some ''bob'') ''solo'' ''normal'' 1024 0)
      [ClickStart 1000]) = None
   \<and> misses (registerHit (\<lambda>i. 7 / 10) 1300 16
      (run (\<lambda>i. 7 / 10) (mount (\<lambda>i. 7 / 10) (Some ''bob'') ''solo'' ''normal'' 1024 0)
         [ClickStart 1000])) = 0
   \<and> missesRef (registerHit (\<lambda>i. 7 / 10) 1300 16
      (run (\<lambda>i. 7 / 10) (mount (\<lambda>i. 7 / 10) (Some ''bob'') ''solo'' ''normal'' 1024 0)
         [ClickStart 1000])) = 1
   \<and> misses (registerMiss (\<lambda>i. 7 / 10) 1300
      (run (\<lambda>i. 7 / 10) (mount (\<lambda>i. 7 / 10) (Some ''bob'') ''solo'' ''normal'' 1024 0)
         [ClickStart 1000])) = 1
   \<and> missesRef (registerMiss (\<lambda>i. 7 / 10) 1300
      (run (\<lambda>i. 7 / 10) (mount (\<lambda>i. 7 / 10) (Some ''bob'') ''solo'' ''normal'' 1024 0)
         [ClickStart 1000])) = 1"
  unfolding started_normal
  by (simp add: registerHit_def wrongTap_def Let_def displayed_misses)

subsection \<open>C5: a tap on the hazard tile\<close>

text \<open>
  C5, as the code has it. In a state reached from mounting in which a run is in progress,
  a tap on the hazard tile: makes the score \<open>max (score - 10) 0\<close>; sets the streak to
  \<open>0\<close>; adds one to \<open>missesRef\<close>; takes \<open>missPenalty + 1\<close> off \<open>timeLeft\<close>, stopping at
  \<open>0\<close>. If that leaves \<open>0\<close> the run ends, the hazard stays cleared and nothing is spawned.
  Otherwise a new target is spawned, and the spawn draws the hazard afresh: it is
  cleared unless the random read is below the hazard chance of the profile.
\<close>

theorem hazard_tap_effect:
  assumes "s = run rnd (mount rnd name m d innerWidth t0) es"
    and "status s = Playing"
    and "hazardCell s = Some cellIndex"
    and "s' = registerHit rnd now cellIndex s"
  shows "score s' = max (score s - 10) 0
       \<and> streak s' = 0
       \<and> missesRef s' = missesRef s + 1
       \<and> timeLeft s' = max 0 (timeLeft s - (missPenalty (profileOf s) + 1))
       \<and> (timeLeft s' \<le> 0 \<longrightarrow>
            status s' = Done \<and> hazardCell s' = None \<and> activeCell s' = activeCell s
            \<and> spawnTimeRef s' = spawnTimeRef s \<and> drawn s' = drawn s)
       \<and> (0 < timeLeft s' \<longrightarrow>
            status s' = Playing
            \<and> activeCell s' = fst (pickCell rnd (drawn s) (activeCell s) [] (cellCount s))
            \<and> spawnTimeRef s' = now
            \<and> hazardCell s' =
                fst (hazardDraw rnd (snd (pickCell rnd (drawn s) (activeCell s) [] (cellCount s)))
                       (hazardChance (profileOf s)) (activeCell s') (cellCount s)))"
proof -
  note r = reachable_playing [OF assms(1) assms(2)]
  let ?s1 = "s\<lparr> hazardCell := None, streak := 0, missesRef := missesRef s + 1 \<rparr>"
  let ?a = "missPenalty (profileOf s) + 1"
  let ?r = "applyTimePenalty ?a ?s1"
  let ?s3 = "(snd ?r)\<lparr> score := max (score s - 10) 0, scoreRef := max (score s - 10) 0 \<rparr>"
  have h: "s' = hazardTap rnd now s" using assms(2-4) by (simp add: registerHit_def)
  have e: "hazardTap rnd now s = (if fst ?r then ?s3 else spawnNewTarget rnd now ?s3)"
    by (cases ?r) (simp add: hazardTap_def Let_def)
  show ?thesis
  proof (cases "max 0 (timeLeft s - ?a) \<le> 0")
    case True
    then have "s' = ?s3" using h e r(1) by simp
    with True r(1,2) assms(2) show ?thesis by (simp add: penalty_status profileOf_def)
  next
    case False
    then have "s' = spawnNewTarget rnd now ?s3" using h e r(1) by simp
    with False r(1,2) assms(2) show ?thesis
      by (simp add: penalty_status spawnNewTarget_result cellCount_def profileOf_def)
  qed
qed

theorem hazard_tap_effect_witness:
  "score (registerHit (\<lambda>i. if i = 3 \<or> i = 6 then 1 / 100 else if i = 2 \<or> i = 7 then 1 / 2 else 7 / 10) 1300 17
      (run (\<lambda>i. if i = 3 \<or> i = 6 then 1 / 100 else if i = 2 \<or> i = 7 then 1 / 2 else 7 / 10)
         (mount (\<lambda>i. if i = 3 \<or> i = 6 then 1 / 100 else if i = 2 \<or> i = 7 then 1 / 2 else 7 / 10)
            (Some ''bob'') ''solo'' ''hard'' 1024 0) [ClickStart 1000])) = 0
   \<and> timeLeft (registerHit (\<lambda>i. if i = 3 \<or> i = 6 then 1 / 100 else if i = 2 \<or> i = 7 then 1 / 2 else 7 / 10) 1300 17
      (run (\<lambda>i. if i = 3 \<or> i = 6 then 1 / 100 else if i = 2 \<or> i = 7 then 1 / 2 else 7 / 10)
         (mount (\<lambda>i. if i = 3 \<or> i = 6 then 1 / 100 else if i = 2 \<or> i = 7 then 1 / 2 else 7 / 10)
            (Some ''bob'') ''solo'' ''hard'' 1024 0) [ClickStart 1000])) = 195 / 10
   \<and> missesRef (registerHit (\<lambda>i. if i = 3 \<or> i = 6 then 1 / 100 else if i = 2 \<or> i = 7 then 1 / 2 else 7 / 10) 1300 17
      (run (\<lambda>i. if i = 3 \<or> i = 6 then 1 / 100 else if i = 2 \<or> i = 7 then 1 / 2 else 7 / 10)
         (mount (\<lambda>i. if i = 3 \<or> i = 6 then 1 / 100 else if i = 2 \<or> i = 7 then 1 / 2 else 7 / 10)
            (Some ''bob'') ''solo'' ''hard'' 1024 0) [ClickStart 1000])) = 1
   \<and> activeCell (registerHit (\<lambda>i. if i = 3 \<or> i = 6 then 1 / 100 else if i = 2 \<or> i = 7 then 1 / 2 else 7 / 10) 1300 17
      (run (\<lambda>i. if i = 3 \<or> i = 6 then 1 / 100 else if i = 2 \<or> i = 7 then 1 / 2 else 7 / 10)
         (mount (\<lambda>i. if i = 3 \<or> i = 6 then 1 / 100 else if i = 2 \<or> i = 7 then 1 / 2 else 7 / 10)
            (Some ''bob'') ''solo'' ''hard'' 1024 0) [ClickStart 1000])) = 17"
  using hazard_tap_effect [where rnd = "\<lambda>i. if i = 3 \<or> i = 6 then 1 / 100 else if i = 2 \<or> i = 7 then 1 / 2 else 7 / 10"
      and name = "Some ''bob''" and m = "''solo''"
      and d = "''hard''" and innerWidth = 1024 and ?t0.0 = 0 and es = "[ClickStart 1000]"
      and cellIndex = 17 and now = 1300, OF refl _ _ refl]
    started_hard
  by (simp add: profileOf_def settings_def DIFFICULTY_def hard_def cellCount_def pickCell_def
      pickLoop.simps)

text \<open>
  The claim as written, that the hazard is cleared after the tap, fails when the spawn
  that follows draws a hazard again: here the hazard on cell \<open>17\<close> is tapped, and the
  state after the tap has a hazard on cell \<open>12\<close>.
\<close>

theorem hazard_tap_redraw_counterexample:
  "hazardCell (run (\<lambda>i. if i = 3 \<or> i = 6 then 1 / 100 else if i = 2 \<or> i = 7 then 1 / 2 else 7 / 10)
         (mount (\<lambda>i. if i = 3 \<or> i = 6 then 1 / 100 else if i = 2 \<or> i = 7 then 1 / 2 else 7 / 10)
            (Some ''bob'') ''solo'' ''hard'' 1024 0) [ClickStart 1000]) = Some 17
   \<and> status (run (\<lambda>i. if i = 3 \<or> i = 6 then 1 / 100 else if i = 2 \<or> i = 7 then 1 / 2 else 7 / 10)
         (mount (\<lambda>i. if i = 3 \<or> i = 6 then 1 / 100 else if i = 2 \<or> i = 7 then 1 / 2 else 7 / 10)
            (Some ''bob'') ''solo'' ''hard'' 1024 0) [ClickStart 1000]) = Playing
   \<and> hazardCell (registerHit (\<lambda>i. if i = 3 \<or> i = 6 then 1 / 100 else if i = 2 \<or> i = 7 then 1 / 2 else 7 / 10) 1300 17
      (run (\<lambda>i. if i = 3 \<or> i = 6 then 1 / 100 else if i = 2 \<or> i = 7 then 1 / 2 else 7 / 10)
         (mount (\<lambda>i. if i = 3 \<or> i = 6 then 1 / 100 else if i = 2 \<or> i = 7 then 1 / 2 else 7 / 10)
            (Some ''bob'') ''solo'' ''hard'' 1024 0) [ClickStart 1000])) = Some 12"
proof -
  let ?rnd = "\<lambda>i::nat. if i = 3 \<or> i = 6 then 1 / 100 else if i = 2 \<or> i = 7 then 1 / 2 else (7 / 10 :: real)"
  let ?S = "run ?rnd (mount ?rnd (Some ''bob'') ''solo'' ''hard'' 1024 0) [ClickStart 1000]"
  have S: "?S = \<lparr> playerName = Some ''bob'', mode = ''solo'', difficulty = ''hard'',
       grid = \<lparr> cols = 5, rows = 5 \<rparr>, status = Playing, timeLeft = 25, score = 0,
       streak = 0, misses = 0, hits = 0, activeCell = 12, hazardCell = Some 17,
       fastestHit = None, totalReactionMs = 0, spawnTimeRef = 1000,
       finishedRef = False, scoreRef = 0, timeLeftRef = 25, hitsRef = 0,
       missesRef = 0, fastestHitRef = None, totalReactionRef = 0,
       maxStreakRef = 0, keyDifficulty = ''hard'',
       keyGrid = \<lparr> cols = 5, rows = 5 \<rparr>, drawn = 5, emitted = [] \<rparr>"
    by (rule started_hard)
  have a: "hazardCell ?S = Some 17" "status ?S = Playing" by (simp_all only: S board.simps)
  have p: "0 < timeLeftRef ?S - (missPenalty (profileOf ?S) + 1)"
    unfolding S by (simp add: profileOf_def settings_def DIFFICULTY_def hard_def)
  have h: "registerHit ?rnd 1300 17 ?S = hazardTap ?rnd 1300 ?S"
    using a by (simp add: registerHit_def)
  have c: "pickCell ?rnd 5 12 [] 25 = (17, 6)"
    by (simp add: pickCell_def pickLoop.simps)
  have d: "hazardDraw ?rnd 6 (8 / 100) 17 25 = (Some 12, 8)"
    by (simp add: hazardDraw_def pickCell_def pickLoop.simps)
  have "hazardCell (hazardTap ?rnd 1300 ?S) = Some 12"
    unfolding hazardTap_continue [OF p] spawnNewTarget_result
    unfolding S
    using c d by (simp add: cellCount_def profileOf_def settings_def DIFFICULTY_def hard_def)
  with a h show ?thesis by (simp only:)
qed

subsection \<open>C6: the reaction window\<close>

text \<open>
  C6. For every difficulty name, score and streak, the reaction window is
  \<open>max paceFloor (paceBase - score * paceScoreFactor - streak * paceStreakFactor)\<close> of
  the profile in force; it is never below \<open>paceFloor\<close>, and it does not grow when score
  and streak grow.
\<close>

theorem difficultyWindow_floor_monotone:
  "difficultyWindow (settings d) sc st =
      max (paceFloor (settings d))
        (paceBase (settings d) - real_of_int sc * paceScoreFactor (settings d)
           - real_of_int st * paceStreakFactor (settings d))
   \<and> paceFloor (settings d) \<le> difficultyWindow (settings d) sc st
   \<and> (sc \<le> sc' \<and> st \<le> st' \<longrightarrow>
        difficultyWindow (settings d) sc' st' \<le> difficultyWindow (settings d) sc st)"
proof -
  have m: "sc \<le> sc' \<Longrightarrow> st \<le> st' \<Longrightarrow>
     real_of_int sc * paceScoreFactor (settings d) + real_of_int st * paceStreakFactor (settings d)
     \<le> real_of_int sc' * paceScoreFactor (settings d) + real_of_int st' * paceStreakFactor (settings d)"
    using pace_factors_nonneg [of d] by (intro add_mono mult_right_mono) simp_all
  show ?thesis unfolding difficultyWindow_def using m by auto
qed

theorem difficultyWindow_floor_monotone_witness:
  "difficultyWindow (settings ''hard'') 10 2 = 1411
   \<and> difficultyWindow (settings ''hard'') 20 3 = 1334
   \<and> difficultyWindow (settings ''hard'') 20 3 \<le> difficultyWindow (settings ''hard'') 10 2
   \<and> paceFloor (settings ''hard'') \<le> difficultyWindow (settings ''hard'') 10 2
   \<and> difficultyWindow (settings ''hard'') 300 0 = 700"
  using difficultyWindow_floor_monotone [of "''hard''" 10 2 20 3]
  by (simp add: difficultyWindow_def settings_def DIFFICULTY_def hard_def)

subsection \<open>C7: the target selector\<close>

text \<open>
  C7, as the code has it. For a cell count of at least \<open>1\<close> and random reads in
  \<open>[0, 1)\<close>, \<open>pickCell\<close> makes between one and forty reads and returns its last draw,
  which lies in \<open>[0, count)\<close>. A result inside \<open>{previous} \<union> banned\<close> occurs only when
  all forty reads were used; it is then the fortieth draw, which is \<open>previous\<close> whenever
  \<open>banned\<close> holds nothing but \<open>previous\<close>, as at every call in the source.
\<close>

theorem pickCell_bounded_in_range:
  assumes "1 \<le> count" and "\<forall>i. 0 \<le> rnd i \<and> rnd i < 1"
    and "pickCell rnd pos previous banned count = (n, p)"
  shows "pos < p \<and> p \<le> pos + 40 \<and> 0 \<le> n \<and> n < count
       \<and> n = \<lfloor>rnd (p - 1) * real_of_int count\<rfloor>
       \<and> (n \<in> set (previous # banned) \<longrightarrow> p = pos + 40)
       \<and> (set banned \<subseteq> {previous} \<and> n \<in> set (previous # banned) \<longrightarrow> n = previous)"
proof -
  let ?d = "\<lfloor>rnd pos * real_of_int count\<rfloor>"
  have lp: "pickLoop rnd (previous # banned) count ?d 1 (pos + 1) = (n, p)"
    using assms(3) by (simp add: pickCell_def pickLoop.simps [of _ _ _ previous 0])
  have a1: "(1::nat) \<le> 40" by simp
  note r = pickLoop_result [OF assms(1) assms(2) a1 lp]
  have r1: "pos + 1 \<le> p" using r by (rule conjunct1)
  have r2: "p + 1 \<le> pos + 1 + 40" using r by (elim conjE)
  have r3: "p = pos + 1 \<longrightarrow> n = ?d" using r by (elim conjE)
  have r4: "pos + 1 < p \<longrightarrow> n = \<lfloor>rnd (p - 1) * real_of_int count\<rfloor> \<and> 0 \<le> n \<and> n < count"
    using r by (elim conjE)
  have r5: "n \<in> set (previous # banned) \<longrightarrow> p + 1 = pos + 1 + 40" using r by (elim conjE)
  have rng: "0 \<le> ?d \<and> ?d < count"
    using draw_in_range [of count "rnd pos"] assms(1,2) by simp
  have b1: "pos < p" "p \<le> pos + 40" using r1 r2 by simp_all
  have b2: "n = \<lfloor>rnd (p - 1) * real_of_int count\<rfloor> \<and> 0 \<le> n \<and> n < count"
  proof (cases "p = pos + 1")
    case True
    with r3 have "n = ?d" by simp
    with rng True show ?thesis by simp
  next
    case False
    with r1 have "pos + 1 < p" by simp
    with r4 show ?thesis by (rule mp)
  qed
  have b3: "n \<in> set (previous # banned) \<longrightarrow> p = pos + 40" using r5 by simp
  have b4: "set banned \<subseteq> {previous} \<and> n \<in> set (previous # banned) \<longrightarrow> n = previous" by auto
  from b1 b2 b3 b4 show ?thesis by blast
qed

theorem pickCell_bounded_in_range_witness:
  "pickCell (\<lambda>i. 7 / 10) 0 3 [] 25 = (17, 1)
   \<and> (0::nat) < 1 \<and> (1::nat) \<le> 0 + 40 \<and> (0::int) \<le> 17 \<and> (17::int) < 25"
  using pickCell_bounded_in_range [of 25 "\<lambda>i. 7 / 10" 0 3 "[]" 17 1]
  by (simp add: pickCell_def pickLoop.simps)

text \<open>
  The claim as written fails when \<open>banned\<close> holds another index: with \<open>previous = 0\<close>,
  \<open>banned = [1]\<close>, two cells and every read giving \<open>0.7\<close>, all forty draws are \<open>1\<close>, and
  the result \<open>1\<close> is neither outside \<open>{previous} \<union> banned\<close> nor \<open>previous\<close>.
\<close>

theorem pickCell_fallback_counterexample:
  "pickCell (\<lambda>i. 7 / 10) 0 0 [1] 2 = (1, 40)
   \<and> \<not> ((0 \<le> (1::int) \<and> (1::int) < 2 \<and> (1::int) \<notin> set (0 # [1])) \<or> (1::int) = 0)"
  by (simp add: pickCell_def pickLoop.simps)

subsection \<open>C8: starting a run\<close>




subsection \<open>C9: the reaction time\<close>




subsection \<open>C10: no hazard tile under the normal profile\<close>

text \<open>
  C10 says that under the normal profile there is no hazard tile at the start of a run.
  The start by the space key breaks it: the listener keeps the \<^verbatim>\<open>reset\<close> of the render
  that installed it. Here the board is mounted under normal and switched to hard; a name
  is entered, which installs the listener anew, under hard; the board is switched back
  to normal, which leaves the listener alone since the status stays idle; the space
  key then starts a run under normal with the start time and the hazard chance of hard,
  and with the second random read of the start below \<open>0.08\<close> a hazard lies on cell \<open>17\<close>.
  The Start button on the same board starts with \<open>30\<close> seconds and no hazard.
\<close>

theorem stale_space_start_places_hazard:
  "difficulty (run (\<lambda>i. if i = 5 then 1 / 100 else if i = 4 then 1 / 2 else 7 / 10)
       (mount (\<lambda>i. if i = 5 then 1 / 100 else if i = 4 then 1 / 2 else 7 / 10)
          None ''solo'' ''normal'' 1024 0)
       [SetDifficulty ''hard'', SetPlayerName (Some ''bob''), SetDifficulty ''normal'',
        KeySpace 1000]) = ''normal''
   \<and> status (run (\<lambda>i. if i = 5 then 1 / 100 else if i = 4 then 1 / 2 else 7 / 10)
       (mount (\<lambda>i. if i = 5 then 1 / 100 else if i = 4 then 1 / 2 else 7 / 10)
          None ''solo'' ''normal'' 1024 0)
       [SetDifficulty ''hard'', SetPlayerName (Some ''bob''), SetDifficulty ''normal'',
        KeySpace 1000]) = Playing
   \<and> hazardCell (run (\<lambda>i. if i = 5 then 1 / 100 else if i = 4 then 1 / 2 else 7 / 10)
       (mount (\<lambda>i. if i = 5 then 1 / 100 else if i = 4 then 1 / 2 else 7 / 10)
          None ''solo'' ''normal'' 1024 0)
       [SetDifficulty ''hard'', SetPlayerName (Some ''bob''), SetDifficulty ''normal'',
        KeySpace 1000]) = Some 17
   \<and> timeLeft (run (\<lambda>i. if i = 5 then 1 / 100 else if i = 4 then 1 / 2 else 7 / 10)
       (mount (\<lambda>i. if i = 5 then 1 / 100 else if i = 4 then 1 / 2 else 7 / 10)
          None ''solo'' ''normal'' 1024 0)
       [SetDifficulty ''hard'', SetPlayerName (Some ''bob''), SetDifficulty ''normal'',
        KeySpace 1000]) = 25
   \<and> hazardCell (run (\<lambda>i. if i = 5 then 1 / 100 else if i = 4 then 1 / 2 else 7 / 10)
       (mount (\<lambda>i. if i = 5 then 1 / 100 else if i = 4 then 1 / 2 else 7 / 10)
          None ''solo'' ''normal'' 1024 0)
       [SetDifficulty ''hard'', SetPlayerName (Some ''bob''), SetDifficulty ''normal'',
        ClickStart 1000]) = None
   \<and> timeLeft (run (\<lambda>i. if i = 5 then 1 / 100 else if i = 4 then 1 / 2 else 7 / 10)
       (mount (\<lambda>i. if i = 5 then 1 / 100 else if i = 4 then 1 / 2 else 7 / 10)
          None ''solo'' ''normal'' 1024 0)
       [SetDifficulty ''hard'', SetPlayerName (Some ''bob''), SetDifficulty ''normal'',
        ClickStart 1000]) = 30"
  by (simp add: mount_def initial_def settingsEffect_def step_def rebindKeys_def reset_def
      resetWith_def keyProfile_def keyCellCount_def hazardDraw_def pickCell_def pickLoop.simps
      getGrid_def cellCount_def profileOf_def settings_def DIFFICULTY_def normal_def hard_def
      blankName_def trim_def isSpace_def Let_def)

end
